theory Spec2Isabelle
  imports Main
begin

section \<open>Library functions the logger calls\<close>

text \<open>
  Go strings are byte sequences, so they are modelled as \<^typ>\<open>string\<close> (a list of
  8-bit characters); a character outside ASCII is the sequence of its UTF-8 bytes.
  Go's \<open>int\<close> is modelled as \<^typ>\<open>int\<close>: the logger only compares and prints integers.
\<close>

subsection \<open>\<open>fmt.Sprintf\<close>\<close>

text \<open>
  The variadic \<open>...interface{}\<close> arguments are strings or integers. The verbs \<open>%v\<close>,
  \<open>%+v\<close>, \<open>%s\<close>, \<open>%d\<close> and \<open>%%\<close> are computed as \<open>fmt\<close> computes them, with its
  diagnostics for a wrong operand type, a missing operand, a missing verb and operands
  left over. On any other directive \<open>doPrintf\<close> answers \<open>None\<close>, and \<open>Sprintf\<close> (defined
  with the environment below) then takes the text from the environment.
\<close>

datatype arg = AString string | AInt int

definition digit_char :: "nat \<Rightarrow> char" where
  "digit_char d = ''0123456789'' ! d"

fun itoa_nat :: "nat \<Rightarrow> string" where
  "itoa_nat n = (if n < 10 then [digit_char n] else itoa_nat (n div 10) @ [digit_char (n mod 10)])"

declare itoa_nat.simps [simp del]

definition itoa :: "int \<Rightarrow> string" where
  "itoa i = (if i < 0 then CHR ''-'' # itoa_nat (nat (- i)) else itoa_nat (nat i))"

fun type_name :: "arg \<Rightarrow> string" where
  "type_name (AString s) = ''string''"
| "type_name (AInt i) = ''int''"

fun fmt_v :: "arg \<Rightarrow> string" where
  "fmt_v (AString s) = s"
| "fmt_v (AInt i) = itoa i"

definition bad_verb :: "char \<Rightarrow> arg \<Rightarrow> string" where
  "bad_verb c a = ''%!'' @ [c] @ ''('' @ type_name a @ ''='' @ fmt_v a @ '')''"

fun extra_args :: "arg list \<Rightarrow> string" where
  "extra_args [] = []"
| "extra_args [a] = type_name a @ ''='' @ fmt_v a"
| "extra_args (a # b # bs) = type_name a @ ''='' @ fmt_v a @ '', '' @ extra_args (b # bs)"

definition extra :: "arg list \<Rightarrow> string" where
  "extra as = (if as = [] then [] else ''%!(EXTRA '' @ extra_args as @ '')'')"

definition print_verb :: "char \<Rightarrow> arg \<Rightarrow> string option" where
  "print_verb c a =
     (if c = CHR ''v'' then Some (fmt_v a)
      else if c = CHR ''s'' then (case a of AString s \<Rightarrow> Some s | AInt i \<Rightarrow> Some (bad_verb c a))
      else if c = CHR ''d'' then (case a of AInt i \<Rightarrow> Some (itoa i) | AString s \<Rightarrow> Some (bad_verb c a))
      else None)"

definition one_verb :: "char \<Rightarrow> arg list \<Rightarrow> (string \<times> arg list) option" where
  "one_verb c as =
     (case as of
        [] \<Rightarrow> if c \<in> set ''vsd'' then Some (''%!'' @ [c] @ ''(MISSING)'', []) else None
      | a # as' \<Rightarrow> (case print_verb c a of None \<Rightarrow> None | Some s \<Rightarrow> Some (s, as')))"

fun doPrintf :: "string \<Rightarrow> arg list \<Rightarrow> string option" where
  "doPrintf [] as = Some (extra as)"
| "doPrintf [c] as =
     (if c = CHR ''%'' then Some (''%!(NOVERB)'' @ extra as) else Some (c # extra as))"
| "doPrintf (c # d # ds) as =
     (if c \<noteq> CHR ''%'' then map_option ((#) c) (doPrintf (d # ds) as)
      else if d = CHR ''%'' then map_option ((#) CHR ''%'') (doPrintf ds as)
      else if d = CHR ''+'' then
        (case ds of
           [] \<Rightarrow> None
         | e # es \<Rightarrow>
             if e = CHR ''v'' then
               (case one_verb e as of
                  None \<Rightarrow> None
                | Some (s, as') \<Rightarrow> map_option ((@) s) (doPrintf es as'))
             else None)
      else
        (case one_verb d as of
           None \<Rightarrow> None
         | Some (s, as') \<Rightarrow> map_option ((@) s) (doPrintf ds as')))"

subsection \<open>\<open>time.Time.Format\<close>\<close>

text \<open>
  A layout is read chunk by chunk, as \<open>nextStdChunk\<close> of package \<open>time\<close> reads it. The
  numeric chunks \<open>2006 01 02 15 04 05 1 2 4 5\<close> are computed; \<open>stdOther\<close> stands for every
  other chunk of the package (names of months and days, 12-hour clock, two-digit year,
  day of the year, zones, fractions), on which \<open>Format\<close> answers \<open>None\<close>.
\<close>

record time =
  year :: int
  month :: nat
  day :: nat
  hour :: nat
  minute :: nat
  second :: nat

definition appendInt :: "int \<Rightarrow> nat \<Rightarrow> string" where
  "appendInt x width =
     (let ds = itoa_nat (nat \<bar>x\<bar>)
      in (if x < 0 then ''-'' else []) @ replicate (width - length ds) CHR ''0'' @ ds)"

datatype chunk =
    Lit char
  | stdLongYear | stdZeroMonth | stdZeroDay | stdHour | stdZeroMinute | stdZeroSecond
  | stdNumMonth | stdDay | stdMinute | stdSecond
  | stdOther

text \<open>The chunk at the head \<open>c # cs\<close> of a layout, and the number of bytes it takes.\<close>

definition nextStdChunk :: "char \<Rightarrow> string \<Rightarrow> chunk \<times> nat" where
  "nextStdChunk c cs =
     (if c = CHR ''J'' then (if take 2 cs = ''an'' then (stdOther, 1) else (Lit c, 1))
      else if c = CHR ''M'' then
        (if take 2 cs = ''on'' \<or> take 2 cs = ''ST'' then (stdOther, 1) else (Lit c, 1))
      else if c = CHR ''0'' then
        (if take 1 cs = ''1'' then (stdZeroMonth, 2)
         else if take 1 cs = ''2'' then (stdZeroDay, 2)
         else if take 1 cs = ''3'' then (stdOther, 2)
         else if take 1 cs = ''4'' then (stdZeroMinute, 2)
         else if take 1 cs = ''5'' then (stdZeroSecond, 2)
         else if take 1 cs = ''6'' then (stdOther, 2)
         else if take 2 cs = ''02'' then (stdOther, 3)
         else (Lit c, 1))
      else if c = CHR ''1'' then (if take 1 cs = ''5'' then (stdHour, 2) else (stdNumMonth, 1))
      else if c = CHR ''2'' then (if take 3 cs = ''006'' then (stdLongYear, 4) else (stdDay, 1))
      else if c = CHR ''_'' then (if take 1 cs = ''2'' then (stdOther, 2) else (Lit c, 1))
      else if c = CHR ''3'' then (stdOther, 1)
      else if c = CHR ''4'' then (stdMinute, 1)
      else if c = CHR ''5'' then (stdSecond, 1)
      else if c = CHR ''P'' then (if take 1 cs = ''M'' then (stdOther, 2) else (Lit c, 1))
      else if c = CHR ''p'' then (if take 1 cs = ''m'' then (stdOther, 2) else (Lit c, 1))
      else if c = CHR ''-'' \<or> c = CHR ''Z'' then
        (if take 2 cs = ''07'' then (stdOther, 3) else (Lit c, 1))
      else if c = CHR ''.'' \<or> c = CHR '','' then
        (if take 1 cs = ''0'' \<or> take 1 cs = ''9'' then (stdOther, 2) else (Lit c, 1))
      else (Lit c, 1))"

fun appendChunk :: "time \<Rightarrow> chunk \<Rightarrow> string option" where
  "appendChunk t (Lit c) = Some [c]"
| "appendChunk t stdLongYear = Some (appendInt (year t) 4)"
| "appendChunk t stdZeroMonth = Some (appendInt (int (month t)) 2)"
| "appendChunk t stdZeroDay = Some (appendInt (int (day t)) 2)"
| "appendChunk t stdHour = Some (appendInt (int (hour t)) 2)"
| "appendChunk t stdZeroMinute = Some (appendInt (int (minute t)) 2)"
| "appendChunk t stdZeroSecond = Some (appendInt (int (second t)) 2)"
| "appendChunk t stdNumMonth = Some (appendInt (int (month t)) 0)"
| "appendChunk t stdDay = Some (appendInt (int (day t)) 0)"
| "appendChunk t stdMinute = Some (appendInt (int (minute t)) 0)"
| "appendChunk t stdSecond = Some (appendInt (int (second t)) 0)"
| "appendChunk t stdOther = None"

function Format :: "time \<Rightarrow> string \<Rightarrow> string option" where
  "Format t [] = Some []"
| "Format t (c # cs) =
     (case appendChunk t (fst (nextStdChunk c cs)) of
        None \<Rightarrow> None
      | Some s \<Rightarrow> map_option ((@) s) (Format t (drop (snd (nextStdChunk c cs) - 1) cs)))"
  by pat_completeness auto
termination
  by (relation "measure (\<lambda>(t, l). length l)") auto

subsection \<open>\<open>filepath.Base\<close>\<close>

text \<open>
  The function of package \<open>path/filepath\<close> on a system whose separator is the slash and
  whose paths have no volume name: trailing separators are stripped, the last element
  is kept, the empty path is \<open>.\<close> and a path of separators only is one separator.
\<close>

definition IsPathSeparator :: "char \<Rightarrow> bool" where
  "IsPathSeparator c = (c = CHR ''/'')"

definition filepath_Base :: "string \<Rightarrow> string" where
  "filepath_Base path =
     (if path = [] then ''.''
      else
        (let stripped = rev (dropWhile IsPathSeparator (rev path));
             last_elem = rev (takeWhile (\<lambda>c. \<not> IsPathSeparator c) (rev stripped))
         in if last_elem = [] then ''/'' else last_elem))"

subsection \<open>\<open>text/template\<close>: parsing\<close>

text \<open>
  A template is the list of its nodes. The parser covers the grammar the two formats of
  the logger are written in: text, a field of the record (\<open>{{.Name}}\<close>), and a call of a
  function of the function map with string constants as arguments
  (\<open>{{Name "..." ...}}\<close>). Everything else is answered with a parse error.
\<close>

datatype error =
    errInvalidLogLevel
  | ParseError string
  | ExecError string
  | WriteError
  | NilPointer

datatype node = TextNode string | FieldNode string | FuncNode string "string list"

definition is_alnum :: "char \<Rightarrow> bool" where
  "is_alnum c = (c \<in> set ''abcdefghijklmnopqrstuvwxyzABCDEFGHIJKLMNOPQRSTUVWXYZ0123456789_'')"

text \<open>
  The arguments of a call: \<open>None\<close> between two arguments, \<open>Some acc\<close> inside a quoted
  string whose bytes so far are \<open>acc\<close>, last byte first.
\<close>

fun scan_args :: "string option \<Rightarrow> string \<Rightarrow> error + string list" where
  "scan_args None [] = Inr []"
| "scan_args None (c # cs) =
     (if c = CHR '' '' then scan_args None cs
      else if c = CHR 0x22 then scan_args (Some []) cs
      else Inl (ParseError ''unexpected character in command''))"
| "scan_args (Some acc) [] = Inl (ParseError ''unterminated quoted string'')"
| "scan_args (Some acc) (c # cs) =
     (if c = CHR 0x22 then
        (case scan_args None cs of Inl e \<Rightarrow> Inl e | Inr as \<Rightarrow> Inr (rev acc # as))
      else if c = CHR 0x5C then Inl (ParseError ''escape sequence in quoted string'')
      else scan_args (Some (c # acc)) cs)"

definition parse_action :: "string list \<Rightarrow> string \<Rightarrow> error + node" where
  "parse_action fm a =
     (let s = dropWhile (\<lambda>c. c = CHR '' '') a
      in case s of
           [] \<Rightarrow> Inl (ParseError ''missing value for command'')
         | c # cs \<Rightarrow>
             if c = CHR ''.'' then
               (let name = rev (dropWhile (\<lambda>c. c = CHR '' '') (rev cs))
                in if name \<noteq> [] \<and> list_all is_alnum name then Inr (FieldNode name)
                   else Inl (ParseError ''bad field name''))
             else
               (let name = takeWhile is_alnum s; rest = dropWhile is_alnum s
                in if name = [] then Inl (ParseError ''unexpected character in command'')
                   else if name \<notin> set fm then Inl (ParseError ''function not defined'')
                   else (case scan_args None rest of
                           Inl e \<Rightarrow> Inl e
                         | Inr as \<Rightarrow> Inr (FuncNode name as))))"

definition flush_text :: "string \<Rightarrow> node list" where
  "flush_text acc = (if acc = [] then [] else [TextNode (rev acc)])"

datatype lexmode = InText | InAction

text \<open>
  The scanner: in text up to the next \<open>{{\<close>, in an action up to the next \<open>}}\<close>; \<open>acc\<close>
  holds the bytes of the current item, last byte first.
\<close>

fun lex_template :: "string list \<Rightarrow> lexmode \<Rightarrow> string \<Rightarrow> string \<Rightarrow> error + node list" where
  "lex_template fm InText acc [] = Inr (flush_text acc)"
| "lex_template fm InAction acc [] = Inl (ParseError ''unclosed action'')"
| "lex_template fm InText acc [c] = Inr (flush_text (c # acc))"
| "lex_template fm InAction acc [c] = Inl (ParseError ''unclosed action'')"
| "lex_template fm InText acc (c # d # ds) =
     (if c = CHR ''{'' \<and> d = CHR ''{'' then
        (case lex_template fm InAction [] ds of
           Inl e \<Rightarrow> Inl e
         | Inr ns \<Rightarrow> Inr (flush_text acc @ ns))
      else lex_template fm InText (c # acc) (d # ds))"
| "lex_template fm InAction acc (c # d # ds) =
     (if c = CHR ''}'' \<and> d = CHR ''}'' then
        (case parse_action fm (rev acc) of
           Inl e \<Rightarrow> Inl e
         | Inr n \<Rightarrow>
             (case lex_template fm InText [] ds of
                Inl e \<Rightarrow> Inl e
              | Inr ns \<Rightarrow> Inr (n # ns)))
      else lex_template fm InAction (c # acc) (d # ds))"

definition template_Parse :: "string list \<Rightarrow> string \<Rightarrow> error + node list" where
  "template_Parse fm text = lex_template fm InText [] text"

section \<open>The logger (log.go)\<close>

subsection \<open>Severity levels and level tags (lines 17--25 and 108--140)\<close>

definition levelDebug :: int where "levelDebug = 0"
definition levelInfo :: int where "levelInfo = 1"
definition levelWarn :: int where "levelWarn = 2"
definition levelError :: int where "levelError = 3"
definition levelFatal :: int where "levelFatal = 4"

text \<open>
  The package \<open>colors\<close> of the repository is not among the sources. Its five decorating
  functions are parameters of the model; \<open>colors.NewColorWriter\<close> is the constructor
  \<open>ColorWriter\<close> of the writers below.
\<close>

record colors =
  CyanBold :: "string \<Rightarrow> string"
  GreenBold :: "string \<Rightarrow> string"
  YellowBold :: "string \<Rightarrow> string"
  RedBold :: "string \<Rightarrow> string"
  MagentaBold :: "string \<Rightarrow> string"

text \<open>
  A panic is the left injection of the result. Neither method reads its receiver, so
  the receiver is no parameter of the model.
\<close>

definition getLevelTag :: "int \<Rightarrow> error + string" where
  "getLevelTag level =
     (if level = levelDebug then Inr ''DEBUG''
      else if level = levelInfo then Inr ''INFO ''
      else if level = levelWarn then Inr ''WARN ''
      else if level = levelError then Inr ''ERROR''
      else if level = levelFatal then Inr ''FATAL''
      else Inl errInvalidLogLevel)"

definition decorate :: "(string \<Rightarrow> string) \<Rightarrow> error + string \<Rightarrow> error + string" where
  "decorate f r = (case r of Inl e \<Rightarrow> Inl e | Inr s \<Rightarrow> Inr (f s))"

definition getColorLevel :: "colors \<Rightarrow> int \<Rightarrow> error + string" where
  "getColorLevel cols level =
     (if level = levelDebug then decorate (CyanBold cols) (getLevelTag level)
      else if level = levelInfo then decorate (GreenBold cols) (getLevelTag level)
      else if level = levelWarn then decorate (YellowBold cols) (getLevelTag level)
      else if level = levelError then decorate (RedBold cols) (getLevelTag level)
      else if level = levelFatal then decorate (MagentaBold cols) (getLevelTag level)
      else Inl errInvalidLogLevel)"

subsection \<open>State, environment and observable events\<close>

text \<open>
  What a call does beyond returning is recorded as a list of events, oldest first:
  taking and releasing the mutex, the stack introspection \<open>runtime.Caller\<close> with its
  depth, every \<open>Write\<close> on a writer with its bytes and whether the writer accepted them,
  and \<open>os.Exit\<close> with its code.
\<close>

datatype writer = Stdout | Sink nat | ColorWriter writer

datatype event =
    EvLock
  | EvUnlock
  | EvCaller int
  | EvWrite writer string bool
  | EvExit int

text \<open>
  How a call ends: it returns, it panics, it ends the process, or it waits for a mutex
  that is held.
\<close>

datatype outcome = Returned | Panicked error | Exited int | Blocked

record LogRecord =
  ID :: string
  Level :: string
  Message :: string
  Filename :: string
  LineNo :: int

record QLogger =
  mu :: bool
  "output" :: writer

text \<open>
  The environment is everything the package reads from outside itself: the colour
  functions, the process environment, the clock, the call stack, the behaviour of the
  writers (which may depend on what happened before), and the results of \<open>fmt\<close> and
  \<open>time\<close> on directives outside the computed ones.
\<close>

record env =
  env_colors :: colors
  env_Getenv :: "string \<Rightarrow> string"
  env_now :: time
  env_Caller :: "int \<Rightarrow> (string \<times> int) option"
  env_write_ok :: "event list \<Rightarrow> writer \<Rightarrow> string \<Rightarrow> bool"
  ext_Sprintf :: "string \<Rightarrow> arg list \<Rightarrow> string"
  ext_Format :: "time \<Rightarrow> string \<Rightarrow> string"

text \<open>
  The package variables. \<open>heap\<close> is the store of the allocated \<open>QLogger\<close> objects, an
  address being an index into it; \<open>instance\<close> and \<open>log\<close> are pointers (\<open>None\<close> is \<open>nil\<close>).
  The variables \<open>sequenceNo\<close> and \<open>debugLogRecordTemplate\<close> are declared by the package
  and neither read nor written by it; they are left out.
\<close>

record state =
  once :: bool
  heap :: "QLogger list"
  "instance" :: "nat option"
  log :: "nat option"
  debugMode :: bool
  logLevel :: int
  logRecordTemplate :: "node list option"
  trace :: "event list"

definition emit :: "event \<Rightarrow> state \<Rightarrow> state" where
  "emit e st = st\<lparr>trace := trace st @ [e]\<rparr>"

definition Sprintf :: "env \<Rightarrow> string \<Rightarrow> arg list \<Rightarrow> string" where
  "Sprintf env format a =
     (case doPrintf format a of Some s \<Rightarrow> s | None \<Rightarrow> ext_Sprintf env format a)"

subsection \<open>The template functions and the two formats (lines 60--106)\<close>

definition Now :: "env \<Rightarrow> string \<Rightarrow> string" where
  "Now env layout =
     (case Format (env_now env) layout of
        Some s \<Rightarrow> s
      | None \<Rightarrow> ext_Format env (env_now env) layout)"

definition EndLine :: string where
  "EndLine = ''\<newline>''"

text \<open>The separator glyph U+25B6, in UTF-8.\<close>

definition glyph :: string where
  "glyph = [CHR 0xE2, CHR 0x96, CHR 0xB6]"

definition debugLogFormat :: string where
  "debugLogFormat =
     ''[IIGService] {{Now '' @ [CHR 0x22] @ ''2006/01/02 15:04:05'' @ [CHR 0x22] @
     ''}} {{.Level}} '' @ glyph @
     '' {{.ID}} {{.Filename}}:{{.LineNo}} {{.Message}}{{EndLine}}''"

definition relaseLogFormat :: string where
  "relaseLogFormat =
     ''[IIGService] {{Now '' @ [CHR 0x22] @ ''2006/01/02 15:04:05'' @ [CHR 0x22] @
     ''}} {{.Level}} '' @ glyph @
     '' {{.ID}} {{.Message}}{{EndLine}}''"

definition funcs :: "string list" where
  "funcs = [''Now'', ''EndLine'']"

subsection \<open>\<open>text/template\<close>: execution\<close>

text \<open>
  \<open>Execute\<close> walks the nodes in order and hands the text of each node to the writer in
  one \<open>Write\<close>; it stops with an error at the first node that cannot be evaluated and at
  the first \<open>Write\<close> the writer refuses.
\<close>

definition eval_node :: "env \<Rightarrow> LogRecord \<Rightarrow> node \<Rightarrow> error + string" where
  "eval_node env r n =
     (case n of
        TextNode s \<Rightarrow> Inr s
      | FieldNode f \<Rightarrow>
          if f = ''ID'' then Inr (ID r)
          else if f = ''Level'' then Inr (Level r)
          else if f = ''Message'' then Inr (Message r)
          else if f = ''Filename'' then Inr (Filename r)
          else if f = ''LineNo'' then Inr (itoa (LineNo r))
          else Inl (ExecError f)
      | FuncNode f as \<Rightarrow>
          if f = ''Now'' then
            (case as of [layout] \<Rightarrow> Inr (Now env layout) | _ \<Rightarrow> Inl (ExecError f))
          else if f = ''EndLine'' then
            (case as of [] \<Rightarrow> Inr EndLine | _ \<Rightarrow> Inl (ExecError f))
          else Inl (ExecError f))"

fun Execute :: "env \<Rightarrow> node list \<Rightarrow> writer \<Rightarrow> LogRecord \<Rightarrow> state \<Rightarrow> error option \<times> state" where
  "Execute env [] w r st = (None, st)"
| "Execute env (n # ns) w r st =
     (case eval_node env r n of
        Inl e \<Rightarrow> (Some e, st)
      | Inr s \<Rightarrow>
          if env_write_ok env (trace st) w s
          then Execute env ns w r (emit (EvWrite w s True) st)
          else (Some WriteError, emit (EvWrite w s False) st))"

subsection \<open>The mutex and the core \<open>mustLog\<close> (lines 142--170)\<close>

definition set_mu :: "nat \<Rightarrow> bool \<Rightarrow> state \<Rightarrow> state" where
  "set_mu a b st = st\<lparr>heap := (heap st)[a := (heap st ! a)\<lparr>mu := b\<rparr>]\<rparr>"

definition mu_Lock :: "nat \<Rightarrow> state \<Rightarrow> state" where
  "mu_Lock a st = emit EvLock (set_mu a True st)"

definition mu_Unlock :: "nat \<Rightarrow> state \<Rightarrow> state" where
  "mu_Unlock a st = emit EvUnlock (set_mu a False st)"

text \<open>Lines 153--157: the caller's file and line, or the sentinel values.\<close>

definition caller_location :: "env \<Rightarrow> int \<Rightarrow> string \<times> int" where
  "caller_location env calldepth =
     (case env_Caller env calldepth of
        None \<Rightarrow> (''???'', 0)
      | Some (file, line) \<Rightarrow> (file, line))"

text \<open>Lines 159--164: the record; the field \<open>ID\<close> is not set and keeps its zero value.\<close>

definition new_record :: "env \<Rightarrow> string \<Rightarrow> string \<Rightarrow> arg list \<Rightarrow> string \<times> int \<Rightarrow> LogRecord" where
  "new_record env lv message args loc =
     \<lparr>ID = [], Level = lv, Message = Sprintf env message args,
      Filename = filepath_Base (fst loc), LineNo = snd loc\<rparr>"

text \<open>
  The receiver \<open>l\<close> is a pointer. The threshold is tested before the receiver is
  touched. A \<open>nil\<close> receiver panics at \<open>l.mu.Lock()\<close> (an address outside the store does
  not arise in Go and is treated alike); a held mutex blocks. The deferred
  \<open>l.mu.Unlock()\<close> runs on the return and on every panic after the lock was taken.
  A \<open>nil\<close> template panics in \<open>Execute\<close>.
\<close>

definition mustLog ::
  "env \<Rightarrow> nat option \<Rightarrow> int \<Rightarrow> int \<Rightarrow> string \<Rightarrow> arg list \<Rightarrow> state \<Rightarrow> outcome \<times> state" where
  "mustLog env l level calldepth message args st =
     (if level < logLevel st then (Returned, st)
      else case l of
        None \<Rightarrow> (Panicked NilPointer, st)
      | Some a \<Rightarrow>
          if \<not> a < length (heap st) then (Panicked NilPointer, st)
          else if mu (heap st ! a) then (Blocked, st)
          else
            (let st1 = mu_Lock a st;
                 st2 = emit (EvCaller calldepth) st1;
                 loc = caller_location env calldepth
             in case getColorLevel (env_colors env) level of
                  Inl e \<Rightarrow> (Panicked e, mu_Unlock a st2)
                | Inr lv \<Rightarrow>
                    (let record = new_record env lv message args loc
                     in case logRecordTemplate st2 of
                          None \<Rightarrow> (Panicked NilPointer, mu_Unlock a st2)
                        | Some t \<Rightarrow>
                            (case Execute env t (output (heap st2 ! a)) record st2 of
                               (None, st3) \<Rightarrow> (Returned, mu_Unlock a st3)
                             | (Some e, st3) \<Rightarrow> (Panicked e, mu_Unlock a st3)))))"

subsection \<open>The singleton (lines 58--96 and 172)\<close>

text \<open>
  \<open>once.Do\<close> runs its function on the first call only, and counts the call as done
  also when the function panics. The result of \<open>getQLogger\<close> is the pointer it returns,
  or the panic of a template that does not parse.
\<close>

definition getQLogger :: "writer \<Rightarrow> state \<Rightarrow> (error + nat option) \<times> state" where
  "getQLogger w st =
     (if once st then (Inr (instance st), st)
      else
        (let st1 = st\<lparr>once := True\<rparr>
         in case template_Parse funcs (if debugMode st1 then debugLogFormat else relaseLogFormat) of
              Inl e \<Rightarrow> (Inl e, st1\<lparr>logRecordTemplate := None\<rparr>)
            | Inr t \<Rightarrow>
                (let a = length (heap st1);
                     st2 = st1\<lparr>logRecordTemplate := Some t,
                               heap := heap st1 @ [\<lparr>mu = False, output = ColorWriter w\<rparr>],
                               instance := Some a\<rparr>
                 in (Inr (instance st2), st2))))"

definition SetOutput :: "nat option \<Rightarrow> writer \<Rightarrow> state \<Rightarrow> outcome \<times> state" where
  "SetOutput l w st =
     (case l of
        None \<Rightarrow> (Panicked NilPointer, st)
      | Some a \<Rightarrow>
          if \<not> a < length (heap st) then (Panicked NilPointer, st)
          else if mu (heap st ! a) then (Blocked, st)
          else
            (let st1 = mu_Lock a st;
                 st2 = st1\<lparr>heap := (heap st1)[a := (heap st1 ! a)\<lparr>output := ColorWriter w\<rparr>]\<rparr>
             in (Returned, mu_Unlock a st2)))"

text \<open>
  The initialisation of the package variables: \<open>vars0\<close> holds \<open>debugMode\<close> from the
  process environment (line 33), \<open>logLevel\<close> (line 35) and the zero values of the others;
  \<open>init_pkg\<close> is the state after \<open>log = getQLogger(os.Stdout)\<close> (line 172).
\<close>

definition vars0 :: "env \<Rightarrow> state" where
  "vars0 env =
     \<lparr>once = False, heap = [], instance = None, log = None,
      debugMode = (env_Getenv env ''IIGSDEBUG'' = ''1''),
      logLevel = levelDebug, logRecordTemplate = None, trace = []\<rparr>"

definition init_pkg :: "env \<Rightarrow> state" where
  "init_pkg env =
     (case getQLogger Stdout (vars0 env) of
        (Inr p, st1) \<Rightarrow> st1\<lparr>log := p\<rparr>
      | (Inl e, st1) \<Rightarrow> st1)"

subsection \<open>The entry points (lines 174--208)\<close>

definition Debug :: "env \<Rightarrow> string \<Rightarrow> arg list \<Rightarrow> state \<Rightarrow> outcome \<times> state" where
  "Debug env format v st =
     (if debugMode st then mustLog env (log st) levelDebug 2 format v st else (Returned, st))"

definition Info :: "env \<Rightarrow> string \<Rightarrow> arg list \<Rightarrow> state \<Rightarrow> outcome \<times> state" where
  "Info env format v st = mustLog env (log st) levelInfo 2 format v st"

definition Warn :: "env \<Rightarrow> string \<Rightarrow> arg list \<Rightarrow> state \<Rightarrow> outcome \<times> state" where
  "Warn env format v st = mustLog env (log st) levelWarn 2 format v st"

definition Error :: "env \<Rightarrow> string \<Rightarrow> arg list \<Rightarrow> state \<Rightarrow> outcome \<times> state" where
  "Error env format v st = mustLog env (log st) levelError 2 format v st"

definition Fatal :: "env \<Rightarrow> string \<Rightarrow> arg list \<Rightarrow> state \<Rightarrow> outcome \<times> state" where
  "Fatal env format v st =
     (case mustLog env (log st) levelFatal 2 format v st of
        (Returned, st1) \<Rightarrow> (Exited (- 1), emit (EvExit (- 1)) st1)
      | (oc, st1) \<Rightarrow> (oc, st1))"

text \<open>\<open>io.WriteString\<close> as \<open>Trace\<close> calls it: the error of the write is dropped.\<close>

definition WriteString :: "env \<Rightarrow> writer \<Rightarrow> string \<Rightarrow> state \<Rightarrow> state" where
  "WriteString env w s st = emit (EvWrite w s (env_write_ok env (trace st) w s)) st"

definition Trace :: "env \<Rightarrow> string \<Rightarrow> int \<Rightarrow> string \<Rightarrow> state \<Rightarrow> outcome \<times> state" where
  "Trace env url code result st =
     (let out = ColorWriter Stdout;
          st1 = WriteString env out ''=================================\<newline>'' st;
          st2 = WriteString env out
                  (MagentaBold (env_colors env) (Sprintf env ''   URL: %+v\<newline>'' [AString url])) st1;
          st3 = WriteString env out
                  (MagentaBold (env_colors env) (Sprintf env ''  CODE: %+v\<newline>'' [AInt code])) st2;
          st4 = WriteString env out
                  (MagentaBold (env_colors env) (Sprintf env ''RESULT: %+v\<newline>'' [AString result])) st3
      in (Returned, st4))"

subsection \<open>Sequences of calls\<close>

text \<open>
  A run of the program, as far as the package sees it, is a sequence of calls of its
  functions, each in the environment of its moment. \<open>CallSetOutput\<close> is
  \<open>log.SetOutput(w)\<close>, a call on the singleton from inside the package. A run ends with
  the call that ends the process or blocks; after a panic it goes on, as it does when
  the caller recovers.
\<close>

datatype call =
    CallDebug string "arg list"
  | CallInfo string "arg list"
  | CallWarn string "arg list"
  | CallError string "arg list"
  | CallFatal string "arg list"
  | CallTrace string int string
  | CallGetQLogger writer
  | CallSetOutput writer

fun run_call :: "env \<Rightarrow> call \<Rightarrow> state \<Rightarrow> outcome \<times> state" where
  "run_call env (CallDebug f v) st = Debug env f v st"
| "run_call env (CallInfo f v) st = Info env f v st"
| "run_call env (CallWarn f v) st = Warn env f v st"
| "run_call env (CallError f v) st = Error env f v st"
| "run_call env (CallFatal f v) st = Fatal env f v st"
| "run_call env (CallTrace url code result) st = Trace env url code result st"
| "run_call env (CallGetQLogger w) st =
     (case getQLogger w st of (Inl e, st1) \<Rightarrow> (Panicked e, st1) | (Inr p, st1) \<Rightarrow> (Returned, st1))"
| "run_call env (CallSetOutput w) st = SetOutput (log st) w st"

fun run :: "(env \<times> call) list \<Rightarrow> state \<Rightarrow> state" where
  "run [] st = st"
| "run ((env, c) # cs) st =
     (case run_call env c st of
        (Exited n, st1) \<Rightarrow> st1
      | (Blocked, st1) \<Rightarrow> st1
      | (oc, st1) \<Rightarrow> run cs st1)"

text \<open>The severity of a call of one of the five levelled entry points.\<close>

fun level_of :: "call \<Rightarrow> int option" where
  "level_of (CallDebug f v) = Some levelDebug"
| "level_of (CallInfo f v) = Some levelInfo"
| "level_of (CallWarn f v) = Some levelWarn"
| "level_of (CallError f v) = Some levelError"
| "level_of (CallFatal f v) = Some levelFatal"
| "level_of c = None"

fun is_Debug :: "call \<Rightarrow> bool" where
  "is_Debug (CallDebug f v) = True"
| "is_Debug c = False"

text \<open>Consecutive calls of \<open>getQLogger\<close>: the pointers returned, and the last state.\<close>

fun getQLogger_all :: "writer list \<Rightarrow> state \<Rightarrow> (error + nat option) list \<times> state" where
  "getQLogger_all [] st = ([], st)"
| "getQLogger_all (w # ws) st =
     (case getQLogger w st of
        (r, st1) \<Rightarrow> (case getQLogger_all ws st1 of (rs, st2) \<Rightarrow> (r # rs, st2)))"

subsection \<open>Observations\<close>

text \<open>
  The events a call added, the bytes the writers accepted, the writes with their
  targets, and the writes that were refused.
\<close>

definition new_events :: "state \<Rightarrow> state \<Rightarrow> event list" where
  "new_events st st' = drop (length (trace st)) (trace st')"

fun write_bytes :: "event \<Rightarrow> string" where
  "write_bytes (EvWrite w s ok) = (if ok then s else [])"
| "write_bytes e = []"

definition written :: "event list \<Rightarrow> string" where
  "written tr = concat (map write_bytes tr)"

text \<open>The number of lines of a text: the newlines in it.\<close>

definition line_count :: "string \<Rightarrow> nat" where
  "line_count s = count_list s (CHR 0x0A)"

fun writes_of :: "event list \<Rightarrow> (writer \<times> string) list" where
  "writes_of [] = []"
| "writes_of (EvWrite w s ok # es) = (w, s) # writes_of es"
| "writes_of (e # es) = writes_of es"

fun refused :: "event \<Rightarrow> bool" where
  "refused (EvWrite w s ok) = (\<not> ok)"
| "refused e = False"

fun is_exit :: "event \<Rightarrow> bool" where
  "is_exit (EvExit n) = True"
| "is_exit e = False"

fun writes_to :: "writer \<Rightarrow> event \<Rightarrow> bool" where
  "writes_to w (EvWrite w' s ok) = (w' = w)"
| "writes_to w e = False"

fun panicked :: "outcome \<Rightarrow> bool" where
  "panicked (Panicked e) = True"
| "panicked oc = False"

text \<open>
  The state in which \<open>mustLog\<close> builds and writes the record: the mutex taken, the
  caller looked up.
\<close>

definition entered :: "nat \<Rightarrow> int \<Rightarrow> state \<Rightarrow> state" where
  "entered a calldepth st = emit (EvCaller calldepth) (mu_Lock a st)"

text \<open>The text of a record under a template, all nodes in order, with no writer.\<close>

fun render :: "env \<Rightarrow> node list \<Rightarrow> LogRecord \<Rightarrow> error + string" where
  "render env [] r = Inr []"
| "render env (n # ns) r =
     (case eval_node env r n of
        Inl e \<Rightarrow> Inl e
      | Inr s \<Rightarrow> (case render env ns r of Inl e \<Rightarrow> Inl e | Inr rest \<Rightarrow> Inr (s @ rest)))"

text \<open>
  What \<open>Execute\<close> leaves behind, \<open>evs\<close> being the events it added: only the trace
  changed, every event is a write on the writer given; no error means that the whole
  text was accepted, a refused write is the error \<open>WriteError\<close>, and any other error
  is the one of the first node that cannot be evaluated.
\<close>

definition exec_post :: "env \<Rightarrow> node list \<Rightarrow> writer \<Rightarrow> LogRecord \<Rightarrow> state \<Rightarrow> event list \<Rightarrow> bool" where
  "exec_post env t w r st evs =
     (snd (Execute env t w r st) = st\<lparr>trace := trace st @ evs\<rparr> \<and>
      list_all (writes_to w) evs \<and>
      (fst (Execute env t w r st) = None \<longrightarrow>
         render env t r = Inr (written evs) \<and> \<not> list_ex refused evs) \<and>
      (list_ex refused evs \<longrightarrow> fst (Execute env t w r st) = Some WriteError) \<and>
      (\<forall>e. fst (Execute env t w r st) = Some e \<longrightarrow>
         e = WriteError \<and> list_ex refused evs \<or> render env t r = Inl e))"

text \<open>
  The two templates as node lists (they are shown below to be what the two formats
  parse to), and the output format in the words of the specification:
  \<open>[IIGService] 2006/01/02 15:04:05 LEVEL (glyph) ID file.go:123 message\<close> and a newline,
  the concise line being the same without \<open>file.go:123\<close>.
\<close>

definition release_template :: "node list" where
  "release_template =
     [TextNode ''[IIGService] '', FuncNode ''Now'' [''2006/01/02 15:04:05''], TextNode '' '',
      FieldNode ''Level'', TextNode ('' '' @ glyph @ '' ''), FieldNode ''ID'', TextNode '' '',
      FieldNode ''Message'', FuncNode ''EndLine'' []]"

definition debug_template :: "node list" where
  "debug_template =
     [TextNode ''[IIGService] '', FuncNode ''Now'' [''2006/01/02 15:04:05''], TextNode '' '',
      FieldNode ''Level'', TextNode ('' '' @ glyph @ '' ''), FieldNode ''ID'', TextNode '' '',
      FieldNode ''Filename'', TextNode '':'', FieldNode ''LineNo'', TextNode '' '',
      FieldNode ''Message'', FuncNode ''EndLine'' []]"

definition record_line :: "env \<Rightarrow> bool \<Rightarrow> LogRecord \<Rightarrow> string" where
  "record_line env verbose r =
     ''[IIGService] '' @ Now env ''2006/01/02 15:04:05'' @ '' '' @ Level r @ '' '' @ glyph @ '' '' @
     ID r @ '' '' @ (if verbose then Filename r @ '':'' @ itoa (LineNo r) @ '' '' else []) @
     Message r @ ''\<newline>''"

text \<open>
  The invariant of the package variables: initialised once, one logger in the store
  with its mutex free, both pointers on it, the threshold at \<open>levelDebug\<close>, and the
  template that belongs to the debug flag.
\<close>

definition pkg_inv :: "state \<Rightarrow> bool" where
  "pkg_inv st =
     (once st \<and> instance st = Some 0 \<and> log st = Some 0 \<and> length (heap st) = 1 \<and>
      \<not> mu (heap st ! 0) \<and> logLevel st = levelDebug \<and>
      logRecordTemplate st = Some (if debugMode st then debug_template else release_template))"

subsection \<open>Sample environments\<close>

text \<open>
  Concrete environments on which the statements below are evaluated: no colour codes,
  the clock at 2024-01-02 03:04:05, a caller at depth 2, writers that accept
  everything; \<open>env_debug\<close> has the debug variable set, \<open>env_refusing\<close> has writers that
  refuse everything, \<open>env_nocaller\<close> has no caller information.
\<close>

definition plain :: colors where
  "plain = \<lparr>CyanBold = (\<lambda>s. s), GreenBold = (\<lambda>s. s), YellowBold = (\<lambda>s. s),
            RedBold = (\<lambda>s. s), MagentaBold = (\<lambda>s. s)\<rparr>"

definition env0 :: env where
  "env0 = \<lparr>env_colors = plain, env_Getenv = (\<lambda>k. []),
           env_now = \<lparr>year = 2024, month = 1, day = 2, hour = 3, minute = 4, second = 5\<rparr>,
           env_Caller = (\<lambda>d. if d = 2 then Some (''/home/u/app/main.go'', 42) else None),
           env_write_ok = (\<lambda>tr w s. True),
           ext_Sprintf = (\<lambda>f a. []), ext_Format = (\<lambda>t l. [])\<rparr>"

definition env_debug :: env where
  "env_debug = env0\<lparr>env_Getenv := (\<lambda>k. if k = ''IIGSDEBUG'' then ''1'' else [])\<rparr>"

definition env_refusing :: env where
  "env_refusing = env0\<lparr>env_write_ok := (\<lambda>tr w s. False)\<rparr>"

definition env_nocaller :: env where
  "env_nocaller = env0\<lparr>env_Caller := (\<lambda>d. None)\<rparr>"

section \<open>Properties\<close>

subsection \<open>Auxiliary facts\<close>

lemmas level_defs = levelDebug_def levelInfo_def levelWarn_def levelError_def levelFatal_def

lemma parse_release: "template_Parse funcs relaseLogFormat = Inr release_template"
  by (simp add: template_Parse_def funcs_def relaseLogFormat_def release_template_def glyph_def
      parse_action_def flush_text_def is_alnum_def)

lemma parse_debug: "template_Parse funcs debugLogFormat = Inr debug_template"
  by (simp add: template_Parse_def funcs_def debugLogFormat_def debug_template_def glyph_def
      parse_action_def flush_text_def is_alnum_def)

lemma written_Cons_write: "written (EvWrite w s True # evs) = s @ written evs"
  by (simp add: written_def)

lemma Execute_ex: "\<exists>evs. exec_post env t w r st evs"
proof (induction t arbitrary: st)
  case Nil
  have "exec_post env [] w r st []"
    by (simp add: exec_post_def written_def)
  then show ?case ..
next
  case (Cons n ns)
  show ?case
  proof (cases "eval_node env r n")
    case (Inl e)
    then have "exec_post env (n # ns) w r st []"
      by (simp add: exec_post_def written_def)
    then show ?thesis ..
  next
    case (Inr s)
    show ?thesis
    proof (cases "env_write_ok env (trace st) w s")
      case True
      let ?st1 = "emit (EvWrite w s True) st"
      from Cons.IH [of ?st1] obtain evs where p: "exec_post env ns w r ?st1 evs" ..
      have ex: "Execute env (n # ns) w r st = Execute env ns w r ?st1"
        using Inr True by simp
      have "exec_post env (n # ns) w r st (EvWrite w s True # evs)"
        using p Inr unfolding exec_post_def ex
        by (auto simp add: emit_def written_Cons_write split: sum.splits)
      then show ?thesis ..
    next
      case False
      then have "exec_post env (n # ns) w r st [EvWrite w s False]"
        using Inr by (simp add: exec_post_def emit_def)
      then show ?thesis ..
    qed
  qed
qed

lemma Execute_accepting:
  assumes ok: "\<And>tr s. env_write_ok env tr w s"
    and rd: "render env t r = Inr ln"
  shows "fst (Execute env t w r st) = None"
  using rd
proof (induction t arbitrary: st ln)
  case Nil
  show ?case by simp
next
  case (Cons n ns)
  from Cons.prems obtain s rest where s: "eval_node env r n = Inr s" and rest: "render env ns r = Inr rest"
    by (auto split: sum.splits)
  from Cons.IH [OF rest] s ok show ?case by simp
qed

lemma render_release:
  "render env release_template r = Inr (record_line env False r)"
  by (simp add: release_template_def record_line_def eval_node_def EndLine_def)

lemma render_debug:
  "render env debug_template r = Inr (record_line env True r)"
  by (simp add: debug_template_def record_line_def eval_node_def EndLine_def)

lemma render_pkg:
  "render env (if b then debug_template else release_template) r = Inr (record_line env b r)"
  by (simp add: render_release render_debug)

lemma mu_same: "mu q = b \<Longrightarrow> q\<lparr>mu := b\<rparr> = q"
  by (cases q) simp

lemma trace_entered: "trace (entered a d st) = trace st @ [EvLock, EvCaller d]"
  by (simp add: entered_def mu_Lock_def emit_def set_mu_def)

lemma unlock_entered:
  assumes "a < length (heap st)" "\<not> mu (heap st ! a)"
  shows "mu_Unlock a ((entered a d st)\<lparr>trace := tr\<rparr>) = st\<lparr>trace := tr @ [EvUnlock]\<rparr>"
  using assms by (simp add: entered_def mu_Unlock_def mu_Lock_def emit_def set_mu_def mu_same)

lemma unlock_entered0:
  assumes "a < length (heap st)" "\<not> mu (heap st ! a)"
  shows "mu_Unlock a (entered a d st) = st\<lparr>trace := trace st @ [EvLock, EvCaller d, EvUnlock]\<rparr>"
  using assms by (simp add: entered_def mu_Unlock_def mu_Lock_def emit_def set_mu_def mu_same)

lemma mustLog_unfold:
  assumes "a < length (heap st)" "\<not> mu (heap st ! a)" "\<not> level < logLevel st"
  shows "mustLog env (Some a) level calldepth message args st =
     (case getColorLevel (env_colors env) level of
        Inl e \<Rightarrow> (Panicked e, mu_Unlock a (entered a calldepth st))
      | Inr lv \<Rightarrow>
          (case logRecordTemplate st of
             None \<Rightarrow> (Panicked NilPointer, mu_Unlock a (entered a calldepth st))
           | Some t \<Rightarrow>
               (case Execute env t (output (heap st ! a))
                       (new_record env lv message args (caller_location env calldepth))
                       (entered a calldepth st) of
                  (None, st3) \<Rightarrow> (Returned, mu_Unlock a st3)
                | (Some e, st3) \<Rightarrow> (Panicked e, mu_Unlock a st3))))"
  using assms
  by (simp add: mustLog_def Let_def entered_def mu_Lock_def emit_def set_mu_def
      split: sum.splits option.splits)

lemma mustLog_exec:
  assumes v: "a < length (heap st)" "\<not> mu (heap st ! a)" "\<not> level < logLevel st"
    and lv: "getColorLevel (env_colors env) level = Inr lv"
    and t: "logRecordTemplate st = Some t"
  obtains evs where
    "exec_post env t (output (heap st ! a))
       (new_record env lv message args (caller_location env calldepth)) (entered a calldepth st) evs"
    and "mustLog env (Some a) level calldepth message args st =
       ((case fst (Execute env t (output (heap st ! a))
                    (new_record env lv message args (caller_location env calldepth))
                    (entered a calldepth st)) of
           None \<Rightarrow> Returned | Some e \<Rightarrow> Panicked e),
        st\<lparr>trace := trace st @ [EvLock, EvCaller calldepth] @ evs @ [EvUnlock]\<rparr>)"
proof -
  let ?w = "output (heap st ! a)"
  let ?r = "new_record env lv message args (caller_location env calldepth)"
  let ?e = "entered a calldepth st"
  from Execute_ex [of env t ?w ?r ?e] obtain evs where p: "exec_post env t ?w ?r ?e evs" ..
  then have s: "snd (Execute env t ?w ?r ?e) = ?e\<lparr>trace := trace ?e @ evs\<rparr>"
    by (simp add: exec_post_def)
  have u: "mu_Unlock a (snd (Execute env t ?w ?r ?e)) =
      st\<lparr>trace := trace st @ [EvLock, EvCaller calldepth] @ evs @ [EvUnlock]\<rparr>"
    unfolding s using unlock_entered [OF v(1) v(2)] by (simp add: trace_entered)
  have "mustLog env (Some a) level calldepth message args st =
       ((case fst (Execute env t ?w ?r ?e) of None \<Rightarrow> Returned | Some e \<Rightarrow> Panicked e),
        mu_Unlock a (snd (Execute env t ?w ?r ?e)))"
    unfolding mustLog_unfold [OF v] lv t
    by (cases "Execute env t ?w ?r ?e") (simp split: option.splits)
  with u p that show thesis by simp
qed

lemma init_release:
  "env_Getenv env ''IIGSDEBUG'' \<noteq> ''1'' \<Longrightarrow>
   init_pkg env = \<lparr>once = True, heap = [\<lparr>mu = False, output = ColorWriter Stdout\<rparr>],
     instance = Some 0, log = Some 0, debugMode = False, logLevel = levelDebug,
     logRecordTemplate = Some release_template, trace = []\<rparr>"
  by (simp add: init_pkg_def vars0_def getQLogger_def parse_release)

lemma init_debug:
  "env_Getenv env ''IIGSDEBUG'' = ''1'' \<Longrightarrow>
   init_pkg env = \<lparr>once = True, heap = [\<lparr>mu = False, output = ColorWriter Stdout\<rparr>],
     instance = Some 0, log = Some 0, debugMode = True, logLevel = levelDebug,
     logRecordTemplate = Some debug_template, trace = []\<rparr>"
  by (simp add: init_pkg_def vars0_def getQLogger_def parse_debug)

lemma init_env0:
  "init_pkg env0 = \<lparr>once = True, heap = [\<lparr>mu = False, output = ColorWriter Stdout\<rparr>],
     instance = Some 0, log = Some 0, debugMode = False, logLevel = levelDebug,
     logRecordTemplate = Some release_template, trace = []\<rparr>"
  by (rule init_release) (simp add: env0_def)

subsection \<open>Level tags\<close>

text \<open>
  Claim C8. \<open>getLevelTag\<close> maps the five severities to the five-character tags
  \<open>DEBUG\<close>, \<open>INFO \<close>, \<open>WARN \<close>, \<open>ERROR\<close>, \<open>FATAL\<close>, and \<open>getColorLevel\<close> maps them to
  the same tags under the colour function of the severity. Both panic with
  \<open>errInvalidLogLevel\<close> exactly for the levels below \<open>levelDebug\<close> or above
  \<open>levelFatal\<close>, and with nothing else; every tag returned has length five.
\<close>

theorem level_tags:
  "getLevelTag levelDebug = Inr ''DEBUG'' \<and>
   getLevelTag levelInfo = Inr ''INFO '' \<and>
   getLevelTag levelWarn = Inr ''WARN '' \<and>
   getLevelTag levelError = Inr ''ERROR'' \<and>
   getLevelTag levelFatal = Inr ''FATAL'' \<and>
   getColorLevel cols levelDebug = Inr (CyanBold cols ''DEBUG'') \<and>
   getColorLevel cols levelInfo = Inr (GreenBold cols ''INFO '') \<and>
   getColorLevel cols levelWarn = Inr (YellowBold cols ''WARN '') \<and>
   getColorLevel cols levelError = Inr (RedBold cols ''ERROR'') \<and>
   getColorLevel cols levelFatal = Inr (MagentaBold cols ''FATAL'') \<and>
   (getLevelTag level = Inl errInvalidLogLevel) = (level < levelDebug \<or> levelFatal < level) \<and>
   (getColorLevel cols level = Inl errInvalidLogLevel) = (level < levelDebug \<or> levelFatal < level) \<and>
   (case getLevelTag level of Inl e \<Rightarrow> e = errInvalidLogLevel | Inr s \<Rightarrow> length s = 5) \<and>
   (case getColorLevel cols level of Inl e \<Rightarrow> e = errInvalidLogLevel | Inr s \<Rightarrow> True)"
  by (auto simp add: getLevelTag_def getColorLevel_def decorate_def level_defs)

subsection \<open>The threshold gate\<close>

text \<open>
  Claim C2. A call of \<open>mustLog\<close> with a level below the threshold returns and leaves
  the state as it was: the trace gets no event (no lock, no caller lookup, no write),
  and no variable and no logger changes.
\<close>

theorem mustLog_below_threshold:
  assumes "level < logLevel st"
  shows "mustLog env l level calldepth message args st = (Returned, st)"
  using assms by (simp add: mustLog_def)

theorem mustLog_below_threshold_witness:
  "levelInfo < logLevel ((init_pkg env0)\<lparr>logLevel := levelError\<rparr>) \<and>
   mustLog env0 (Some 0) levelInfo 2 ''dropped'' [] ((init_pkg env0)\<lparr>logLevel := levelError\<rparr>) =
     (Returned, (init_pkg env0)\<lparr>logLevel := levelError\<rparr>) \<and>
   trace ((init_pkg env0)\<lparr>logLevel := levelError\<rparr>) = []"
proof -
  have h: "levelInfo < logLevel ((init_pkg env0)\<lparr>logLevel := levelError\<rparr>)"
    by (simp add: level_defs)
  from mustLog_below_threshold [OF h] h show ?thesis
    by (simp add: init_env0)
qed

lemma writes_only:
  "list_all (writes_to w) evs \<Longrightarrow>
   count_list evs EvLock = 0 \<and> count_list evs EvUnlock = 0 \<and> \<not> list_ex is_exit evs"
proof (induction evs)
  case Nil
  show ?case by simp
next
  case (Cons e evs)
  then show ?case by (cases e) simp_all
qed

lemma refused_frame:
  "list_ex refused ([EvLock, EvCaller d] @ evs @ [EvUnlock]) = list_ex refused evs"
  by (simp add: list_ex_iff)

lemma written_frame: "written ([EvLock, EvCaller d] @ evs @ [EvUnlock]) = written evs"
  by (simp add: written_def)

subsection \<open>Evaluation on the sample environments\<close>

lemmas env_simps = env0_def env_debug_def env_refusing_def env_nocaller_def plain_def

lemmas run_simps = mustLog_def Let_def mu_Lock_def mu_Unlock_def set_mu_def emit_def
  caller_location_def new_record_def getColorLevel_def getLevelTag_def decorate_def level_defs
  eval_node_def Now_def EndLine_def Sprintf_def one_verb_def print_verb_def extra_def
  nextStdChunk_def appendInt_def itoa_def itoa_nat.simps digit_char_def filepath_Base_def
  IsPathSeparator_def release_template_def debug_template_def glyph_def new_events_def
  written_def

lemma refusing_run:
  "mustLog env_refusing (Some 0) levelInfo 2 ''x'' [] (init_pkg env0) =
     (Panicked WriteError,
      (init_pkg env0)\<lparr>trace := [EvLock, EvCaller 2,
         EvWrite (ColorWriter Stdout) ''[IIGService] '' False, EvUnlock]\<rparr>)"
  by (simp only: init_env0) (simp add: run_simps env_simps)

subsection \<open>Faults of rendering and writing\<close>

text \<open>
  Claim C7. Let \<open>mustLog\<close> be called on a logger whose mutex is free, with a level
  that passes the threshold. Then it returns or panics (it neither blocks nor ends the
  process); only the trace changes, so the mutex is free again afterwards; the events
  it adds begin with the one lock and end with the one unlock, on the return and on
  every panic. A write the writer refuses makes the call panic with that write error;
  the call returns only if no write was refused and the whole text of the record was
  accepted; and a record the template cannot render makes the call panic.
\<close>

theorem mustLog_fault_policy:
  fixes env a level calldepth message args st
  defines "R \<equiv> mustLog env (Some a) level calldepth message args st"
  defines "N \<equiv> new_events st (snd R)"
  assumes v: "a < length (heap st)" "\<not> mu (heap st ! a)" "\<not> level < logLevel st"
  shows "(fst R = Returned \<or> panicked (fst R)) \<and>
    \<not> mu (heap (snd R) ! a) \<and>
    snd R = st\<lparr>trace := trace st @ N\<rparr> \<and>
    hd N = EvLock \<and> last N = EvUnlock \<and>
    count_list N EvLock = 1 \<and> count_list N EvUnlock = 1 \<and>
    (list_ex refused N \<longrightarrow> fst R = Panicked WriteError) \<and>
    (fst R = Returned \<longrightarrow> \<not> list_ex refused N \<and>
       (\<exists>t lv. logRecordTemplate st = Some t \<and> getColorLevel (env_colors env) level = Inr lv \<and>
          render env t (new_record env lv message args (caller_location env calldepth)) =
            Inr (written N))) \<and>
    (\<forall>t lv e. logRecordTemplate st = Some t \<and> getColorLevel (env_colors env) level = Inr lv \<and>
        render env t (new_record env lv message args (caller_location env calldepth)) = Inl e
        \<longrightarrow> panicked (fst R))"
proof (cases "getColorLevel (env_colors env) level")
  case (Inl e)
  have r: "R = (Panicked e, st\<lparr>trace := trace st @ [EvLock, EvCaller calldepth, EvUnlock]\<rparr>)"
    unfolding R_def mustLog_unfold [OF v] using Inl unlock_entered0 [OF v(1) v(2)] by simp
  have n: "N = [EvLock, EvCaller calldepth, EvUnlock]"
    unfolding N_def r by (simp add: new_events_def)
  show ?thesis using v Inl unfolding n by (simp add: r)
next
  case (Inr lv)
  show ?thesis
  proof (cases "logRecordTemplate st")
    case None
    have r: "R = (Panicked NilPointer, st\<lparr>trace := trace st @ [EvLock, EvCaller calldepth, EvUnlock]\<rparr>)"
      unfolding R_def mustLog_unfold [OF v] using Inr None unlock_entered0 [OF v(1) v(2)] by simp
    have n: "N = [EvLock, EvCaller calldepth, EvUnlock]"
      unfolding N_def r by (simp add: new_events_def)
    show ?thesis using v None unfolding n by (simp add: r)
  next
    case (Some t)
    let ?w = "output (heap st ! a)"
    let ?r = "new_record env lv message args (caller_location env calldepth)"
    let ?x = "fst (Execute env t ?w ?r (entered a calldepth st))"
    from mustLog_exec [OF v Inr Some, of message args calldepth] obtain evs where
      p: "exec_post env t ?w ?r (entered a calldepth st) evs" and
      m: "mustLog env (Some a) level calldepth message args st =
           ((case ?x of None \<Rightarrow> Returned | Some e \<Rightarrow> Panicked e),
            st\<lparr>trace := trace st @ [EvLock, EvCaller calldepth] @ evs @ [EvUnlock]\<rparr>)"
      by blast
    have n: "N = [EvLock, EvCaller calldepth] @ evs @ [EvUnlock]"
      unfolding N_def R_def m by (simp add: new_events_def)
    have f: "fst R = (case ?x of None \<Rightarrow> Returned | Some e \<Rightarrow> Panicked e)"
      unfolding R_def m by simp
    have s: "snd R = st\<lparr>trace := trace st @ N\<rparr>"
      unfolding n unfolding R_def m by simp
    from p have w: "list_all (writes_to ?w) evs"
      and ok: "?x = None \<Longrightarrow> render env t ?r = Inr (written evs) \<and> \<not> list_ex refused evs"
      and bad: "list_ex refused evs \<Longrightarrow> ?x = Some WriteError"
      by (simp_all add: exec_post_def)
    note c = writes_only [OF w]
    have 1: "fst R = Returned \<or> panicked (fst R)"
      unfolding f by (simp split: option.splits)
    have 2: "\<not> mu (heap (snd R) ! a)"
      unfolding s using v by simp
    have 3: "hd N = EvLock \<and> last N = EvUnlock \<and> count_list N EvLock = 1 \<and> count_list N EvUnlock = 1"
      unfolding n using c by simp
    have 4: "list_ex refused N \<longrightarrow> fst R = Panicked WriteError"
      unfolding n refused_frame f using bad by simp
    have 5: "fst R = Returned \<longrightarrow> \<not> list_ex refused N \<and>
       (\<exists>t lv. logRecordTemplate st = Some t \<and> getColorLevel (env_colors env) level = Inr lv \<and>
          render env t (new_record env lv message args (caller_location env calldepth)) =
            Inr (written N))"
    proof
      assume "fst R = Returned"
      then have "?x = None" unfolding f by (simp split: option.splits)
      from ok [OF this] Some Inr show "\<not> list_ex refused N \<and>
       (\<exists>t lv. logRecordTemplate st = Some t \<and> getColorLevel (env_colors env) level = Inr lv \<and>
          render env t (new_record env lv message args (caller_location env calldepth)) =
            Inr (written N))"
        unfolding n refused_frame written_frame by simp
    qed
    have 6: "\<forall>t lv e. logRecordTemplate st = Some t \<and> getColorLevel (env_colors env) level = Inr lv \<and>
        render env t (new_record env lv message args (caller_location env calldepth)) = Inl e
        \<longrightarrow> panicked (fst R)"
    proof (intro allI impI, elim conjE)
      fix t' lv' e
      assume "logRecordTemplate st = Some t'" "getColorLevel (env_colors env) level = Inr lv'"
        and rd: "render env t' (new_record env lv' message args (caller_location env calldepth)) = Inl e"
      with Some Inr have rd': "render env t ?r = Inl e" by simp
      have "?x \<noteq> None" using ok rd' by auto
      then show "panicked (fst R)" unfolding f by (simp split: option.splits)
    qed
    from 1 2 s 3 4 5 6 show ?thesis by simp
  qed
qed

theorem mustLog_fault_policy_witness:
  "0 < length (heap (init_pkg env0)) \<and> \<not> mu (heap (init_pkg env0) ! 0) \<and>
   \<not> levelInfo < logLevel (init_pkg env0) \<and>
   list_ex refused (new_events (init_pkg env0)
      (snd (mustLog env_refusing (Some 0) levelInfo 2 ''x'' [] (init_pkg env0)))) \<and>
   fst (mustLog env_refusing (Some 0) levelInfo 2 ''x'' [] (init_pkg env0)) = Panicked WriteError \<and>
   \<not> mu (heap (snd (mustLog env_refusing (Some 0) levelInfo 2 ''x'' [] (init_pkg env0))) ! 0) \<and>
   last (new_events (init_pkg env0)
      (snd (mustLog env_refusing (Some 0) levelInfo 2 ''x'' [] (init_pkg env0)))) = EvUnlock"
proof -
  have h1: "0 < length (heap (init_pkg env0))" by (simp add: init_env0)
  have h2: "\<not> mu (heap (init_pkg env0) ! 0)" by (simp add: init_env0)
  have h3: "\<not> levelInfo < logLevel (init_pkg env0)" by (simp add: init_env0 level_defs)
  have r: "list_ex refused (new_events (init_pkg env0)
      (snd (mustLog env_refusing (Some 0) levelInfo 2 ''x'' [] (init_pkg env0))))"
    unfolding refusing_run by (simp add: new_events_def init_env0)
  from mustLog_fault_policy [OF h1 h2 h3, of env_refusing 2 "''x''" "[]"] r h1 h2 h3
  show ?thesis by simp
qed

subsection \<open>The format of a record\<close>

text \<open>
  Claim C1. The package is initialised without the debug variable (concise mode, the
  threshold at its default \<open>levelDebug\<close>), the clock stands at 2024-01-02 03:04:05 and
  standard output accepts every write. Then \<open>Info\<close> with the format
  \<open>user %s logged in\<close> and the argument \<open>alice\<close> returns, and the bytes written, all of
  them to the colour writer of standard output, are
  \<open>[IIGService] 2024/01/02 03:04:05\<close>, a space, the tag \<open>INFO \<close> under \<open>GreenBold\<close>, a space, the
  glyph, two spaces, \<open>user alice logged in\<close> and a newline: there is no file and line,
  and the field \<open>ID\<close> of every record is empty.
\<close>

theorem Info_roundtrip:
  assumes concise: "env_Getenv ienv ''IIGSDEBUG'' \<noteq> ''1''"
    and clock: "env_now env = \<lparr>year = 2024, month = 1, day = 2, hour = 3, minute = 4, second = 5\<rparr>"
    and sink: "\<And>tr s. env_write_ok env tr (ColorWriter Stdout) s"
  shows "logLevel (init_pkg ienv) = levelDebug \<and>
    logRecordTemplate (init_pkg ienv) = Some release_template \<and>
    fst (Info env ''user %s logged in'' [AString ''alice''] (init_pkg ienv)) = Returned \<and>
    written (trace (snd (Info env ''user %s logged in'' [AString ''alice''] (init_pkg ienv)))) =
      ''[IIGService] 2024/01/02 03:04:05 '' @ GreenBold (env_colors env) ''INFO '' @
      '' '' @ glyph @ ''  user alice logged in\<newline>'' \<and>
    list_all (writes_to (ColorWriter Stdout))
      (filter (\<lambda>e. write_bytes e \<noteq> [])
         (trace (snd (Info env ''user %s logged in'' [AString ''alice''] (init_pkg ienv))))) \<and>
    ID (new_record env lv message args loc) = []"
  unfolding init_release [OF concise] Info_def
  using clock sink by (simp add: run_simps)

theorem Info_roundtrip_witness:
  "env_Getenv env0 ''IIGSDEBUG'' \<noteq> ''1'' \<and>
   env_now env0 = \<lparr>year = 2024, month = 1, day = 2, hour = 3, minute = 4, second = 5\<rparr> \<and>
   (\<forall>tr s. env_write_ok env0 tr (ColorWriter Stdout) s) \<and>
   written (trace (snd (Info env0 ''user %s logged in'' [AString ''alice''] (init_pkg env0)))) =
     ''[IIGService] 2024/01/02 03:04:05 INFO  '' @ [CHR 0xE2, CHR 0x96, CHR 0xB6] @
     ''  user alice logged in\<newline>''"
proof -
  have h1: "env_Getenv env0 ''IIGSDEBUG'' \<noteq> ''1''" by (simp add: env0_def)
  have h2: "env_now env0 = \<lparr>year = 2024, month = 1, day = 2, hour = 3, minute = 4, second = 5\<rparr>"
    by (simp add: env0_def)
  have h3: "\<And>tr s. env_write_ok env0 tr (ColorWriter Stdout) s" by (simp add: env0_def)
  have c: "GreenBold (env_colors env0) ''INFO '' = ''INFO ''" by (simp add: env0_def plain_def)
  from Info_roundtrip [OF h1 h2 h3] c h1 h2 h3 show ?thesis
    by (simp add: glyph_def)
qed

subsection \<open>The invariant of the package\<close>

lemma mustLog_valid:
  assumes v: "a < length (heap st)" "\<not> mu (heap st ! a)" "\<not> level < logLevel st"
  shows "\<exists>evs. snd (mustLog env (Some a) level calldepth message args st) =
            st\<lparr>trace := trace st @ [EvLock, EvCaller calldepth] @ evs @ [EvUnlock]\<rparr> \<and>
          list_all (writes_to (output (heap st ! a))) evs"
proof (cases "getColorLevel (env_colors env) level")
  case (Inl e)
  have "snd (mustLog env (Some a) level calldepth message args st) =
        st\<lparr>trace := trace st @ [EvLock, EvCaller calldepth] @ [] @ [EvUnlock]\<rparr>"
    unfolding mustLog_unfold [OF v] using Inl unlock_entered0 [OF v(1) v(2)] by simp
  then show ?thesis by (intro exI [of _ "[]"]) simp
next
  case (Inr lv)
  show ?thesis
  proof (cases "logRecordTemplate st")
    case None
    have "snd (mustLog env (Some a) level calldepth message args st) =
        st\<lparr>trace := trace st @ [EvLock, EvCaller calldepth] @ [] @ [EvUnlock]\<rparr>"
      unfolding mustLog_unfold [OF v] using Inr None unlock_entered0 [OF v(1) v(2)] by simp
    then show ?thesis by (intro exI [of _ "[]"]) simp
  next
    case (Some t)
    from mustLog_exec [OF v Inr Some, of message args calldepth] obtain evs where
      p: "exec_post env t (output (heap st ! a))
            (new_record env lv message args (caller_location env calldepth))
            (entered a calldepth st) evs" and
      m: "snd (mustLog env (Some a) level calldepth message args st) =
            st\<lparr>trace := trace st @ [EvLock, EvCaller calldepth] @ evs @ [EvUnlock]\<rparr>"
      by (metis snd_conv)
    from p have "list_all (writes_to (output (heap st ! a))) evs"
      by (simp add: exec_post_def)
    with m show ?thesis by blast
  qed
qed

lemma mustLog_only_trace:
  "\<exists>N. snd (mustLog env l level calldepth message args st) = st\<lparr>trace := trace st @ N\<rparr>"
proof (cases "level < logLevel st")
  case True
  then have "snd (mustLog env l level calldepth message args st) = st\<lparr>trace := trace st @ []\<rparr>"
    by (simp add: mustLog_def)
  then show ?thesis ..
next
  case nf: False
  show ?thesis
  proof (cases l)
    case None
    with nf have "snd (mustLog env l level calldepth message args st) = st\<lparr>trace := trace st @ []\<rparr>"
      by (simp add: mustLog_def)
    then show ?thesis ..
  next
    case (Some a)
    show ?thesis
    proof (cases "a < length (heap st) \<and> \<not> mu (heap st ! a)")
      case False
      with nf Some have "snd (mustLog env l level calldepth message args st) = st\<lparr>trace := trace st @ []\<rparr>"
        by (auto simp add: mustLog_def)
      then show ?thesis ..
    next
      case True
      then have v: "a < length (heap st)" "\<not> mu (heap st ! a)" by simp_all
      from mustLog_valid [OF v nf, of env calldepth message args] Some show ?thesis
        by blast
    qed
  qed
qed

lemma pkg_inv_trace: "pkg_inv (st\<lparr>trace := tr\<rparr>) = pkg_inv st"
  by (simp add: pkg_inv_def)

lemma pkg_inv_init: "pkg_inv (init_pkg env)"
proof (cases "env_Getenv env ''IIGSDEBUG'' = ''1''")
  case True
  then show ?thesis by (simp add: init_debug pkg_inv_def)
next
  case False
  then show ?thesis by (simp add: init_release pkg_inv_def)
qed

lemma mustLog_inv: "pkg_inv st \<Longrightarrow> pkg_inv (snd (mustLog env l level calldepth message args st))"
proof -
  assume i: "pkg_inv st"
  from mustLog_only_trace [of env l level calldepth message args st] obtain N where
    "snd (mustLog env l level calldepth message args st) = st\<lparr>trace := trace st @ N\<rparr>" ..
  with i show ?thesis by (simp add: pkg_inv_trace)
qed

lemma Fatal_inv: "pkg_inv st \<Longrightarrow> pkg_inv (snd (Fatal env f v st))"
proof -
  assume i: "pkg_inv st"
  let ?m = "mustLog env (log st) levelFatal 2 f v st"
  have "snd (Fatal env f v st) = snd ?m \<or> snd (Fatal env f v st) = emit (EvExit (- 1)) (snd ?m)"
    by (cases ?m) (simp add: Fatal_def split: outcome.splits)
  with mustLog_inv [OF i, of env "log st" levelFatal 2 f v] show ?thesis
    by (auto simp add: emit_def pkg_inv_trace)
qed

lemma Trace_inv: "pkg_inv st \<Longrightarrow> pkg_inv (snd (Trace env url code result st))"
  by (simp add: Trace_def Let_def WriteString_def emit_def pkg_inv_def)

lemma getQLogger_inv: "pkg_inv st \<Longrightarrow> getQLogger w st = (Inr (instance st), st)"
  by (simp add: getQLogger_def pkg_inv_def)

lemma SetOutput_inv: "pkg_inv st \<Longrightarrow> pkg_inv (snd (SetOutput (log st) w st))"
  by (simp add: SetOutput_def pkg_inv_def Let_def mu_Lock_def mu_Unlock_def set_mu_def emit_def)

lemma run_call_inv: "pkg_inv st \<Longrightarrow> pkg_inv (snd (run_call env c st))"
proof (cases c)
  case (CallGetQLogger w)
  assume "pkg_inv st"
  then show ?thesis using CallGetQLogger by (simp add: getQLogger_inv)
qed (simp_all add: Debug_def Info_def Warn_def Error_def mustLog_inv Fatal_inv Trace_inv SetOutput_inv)

lemma run_inv: "pkg_inv st \<Longrightarrow> pkg_inv (run cs st)"
proof (induction cs arbitrary: st)
  case Nil
  then show ?case by simp
next
  case (Cons x cs)
  obtain env c where x: "x = (env, c)" by (cases x)
  obtain oc st1 where r: "run_call env c st = (oc, st1)" by (cases "run_call env c st")
  from run_call_inv [OF Cons.prems, of env c] r have i: "pkg_inv st1" by simp
  show ?case
  proof (cases oc)
    case Returned
    with x r Cons.IH [OF i] show ?thesis by simp
  next
    case (Panicked e)
    with x r Cons.IH [OF i] show ?thesis by simp
  next
    case (Exited n)
    with x r i show ?thesis by simp
  next
    case Blocked
    with x r i show ?thesis by simp
  qed
qed

lemma reachable_inv: "pkg_inv (run cs (init_pkg env))"
  by (rule run_inv) (rule pkg_inv_init)

lemma writes_of_append: "writes_of (xs @ ys) = writes_of xs @ writes_of ys"
  by (induction xs rule: writes_of.induct) simp_all

lemma writes_of_target:
  "list_all (writes_to w) evs \<Longrightarrow> list_all (\<lambda>p. fst p = w) (writes_of evs)"
  by (induction evs rule: writes_of.induct) simp_all

lemma trace_grows: "st\<lparr>trace := trace st @ e # N\<rparr> \<noteq> st"
proof
  assume "st\<lparr>trace := trace st @ e # N\<rparr> = st"
  then have "trace (st\<lparr>trace := trace st @ e # N\<rparr>) = trace st" by simp
  then show False by simp
qed

lemma pkg_inv_valid:
  assumes "pkg_inv st" "levelDebug \<le> level"
  shows "log st = Some 0" "0 < length (heap st)" "\<not> mu (heap st ! 0)" "\<not> level < logLevel st"
  using assms by (simp_all add: pkg_inv_def)

lemma leveled_enters:
  assumes i: "pkg_inv st" and l: "levelDebug \<le> level"
  shows "\<exists>N. snd (mustLog env (log st) level calldepth f v st) = st\<lparr>trace := trace st @ EvLock # N\<rparr>"
proof -
  note v = pkg_inv_valid [OF i l]
  from mustLog_valid [OF v(2) v(3) v(4), of env calldepth f v] v(1) show ?thesis
    by auto
qed

lemma mustLog_logLevel: "logLevel (snd (mustLog env l level calldepth f v st)) = logLevel st"
proof -
  from mustLog_only_trace [of env l level calldepth f v st] obtain N where
    "snd (mustLog env l level calldepth f v st) = st\<lparr>trace := trace st @ N\<rparr>" ..
  then show ?thesis by simp
qed

lemma Fatal_snd:
  "snd (Fatal env f v st) = snd (mustLog env (log st) levelFatal 2 f v st) \<or>
   snd (Fatal env f v st) = emit (EvExit (- 1)) (snd (mustLog env (log st) levelFatal 2 f v st))"
  by (cases "mustLog env (log st) levelFatal 2 f v st") (simp add: Fatal_def split: outcome.splits)

lemma run_call_logLevel: "logLevel (snd (run_call env c st)) = logLevel st"
proof (cases c)
  case (CallFatal f v)
  from Fatal_snd [of env f v st] mustLog_logLevel [of env "log st" levelFatal 2 f v st]
  show ?thesis unfolding CallFatal by (auto simp add: emit_def)
next
  case (CallTrace url code result)
  then show ?thesis by (simp add: Trace_def Let_def WriteString_def emit_def)
next
  case (CallGetQLogger w)
  then show ?thesis
    by (simp add: getQLogger_def Let_def split: sum.splits prod.splits)
next
  case (CallSetOutput w)
  then show ?thesis
    by (simp add: SetOutput_def Let_def mu_Lock_def mu_Unlock_def set_mu_def emit_def
        split: option.splits)
qed (simp_all add: Debug_def Info_def Warn_def Error_def mustLog_logLevel)

lemma run_logLevel: "logLevel (run cs st) = logLevel st"
proof (induction cs arbitrary: st)
  case Nil
  show ?case by simp
next
  case (Cons x cs)
  obtain env c where x: "x = (env, c)" by (cases x)
  obtain oc st1 where r: "run_call env c st = (oc, st1)" by (cases "run_call env c st")
  from run_call_logLevel [of env c st] r have l: "logLevel st1 = logLevel st" by simp
  show ?case using x r l Cons.IH [of st1] by (cases oc) simp_all
qed

lemma leveled_changes:
  assumes i: "pkg_inv st" and lv: "level_of c \<noteq> None"
  shows "(snd (run_call env c st) = st) = (is_Debug c \<and> \<not> debugMode st)"
proof -
  have enter: "\<And>level f v. levelDebug \<le> level \<Longrightarrow> snd (mustLog env (log st) level 2 f v st) \<noteq> st"
  proof -
    fix level f v
    assume "levelDebug \<le> level"
    from leveled_enters [OF i this, of env 2 f v] obtain N where
      "snd (mustLog env (log st) level 2 f v st) = st\<lparr>trace := trace st @ EvLock # N\<rparr>" ..
    then show "snd (mustLog env (log st) level 2 f v st) \<noteq> st" by (simp add: trace_grows)
  qed
  show ?thesis
  proof (cases c)
    case (CallDebug f v)
    with enter [of levelDebug f v] show ?thesis by (simp add: Debug_def)
  next
    case (CallInfo f v)
    with enter [of levelInfo f v] show ?thesis by (simp add: Info_def level_defs)
  next
    case (CallWarn f v)
    with enter [of levelWarn f v] show ?thesis by (simp add: Warn_def level_defs)
  next
    case (CallError f v)
    with enter [of levelError f v] show ?thesis by (simp add: Error_def level_defs)
  next
    case (CallFatal f v)
    have l: "levelDebug \<le> levelFatal" by (simp add: level_defs)
    from leveled_enters [OF i l, of env 2 f v] obtain N where
      m: "snd (mustLog env (log st) levelFatal 2 f v st) = st\<lparr>trace := trace st @ EvLock # N\<rparr>" ..
    from Fatal_snd [of env f v st] have "snd (Fatal env f v st) \<noteq> st"
    proof
      assume "snd (Fatal env f v st) = snd (mustLog env (log st) levelFatal 2 f v st)"
      with m show ?thesis by (simp add: trace_grows)
    next
      assume "snd (Fatal env f v st) = emit (EvExit (- 1)) (snd (mustLog env (log st) levelFatal 2 f v st))"
      with m have "snd (Fatal env f v st) = st\<lparr>trace := trace st @ EvLock # (N @ [EvExit (- 1)])\<rparr>"
        by (simp add: emit_def)
      then show ?thesis by (simp only: trace_grows) simp
    qed
    with CallFatal show ?thesis by simp
  next
    case (CallTrace url code result)
    with lv show ?thesis by simp
  next
    case (CallGetQLogger w)
    with lv show ?thesis by simp
  next
    case (CallSetOutput w)
    with lv show ?thesis by simp
  qed
qed

lemma init_env_debug:
  "init_pkg env_debug = \<lparr>once = True, heap = [\<lparr>mu = False, output = ColorWriter Stdout\<rparr>],
     instance = Some 0, log = Some 0, debugMode = True, logLevel = levelDebug,
     logRecordTemplate = Some debug_template, trace = []\<rparr>"
  by (rule init_debug) (simp add: env_debug_def)

lemma mustLog_accepting:
  assumes i: "pkg_inv st"
    and lv: "getColorLevel (env_colors env) level = Inr lv"
    and acc: "\<And>tr s. env_write_ok env tr (output (heap st ! 0)) s"
  shows "fst (mustLog env (log st) level calldepth message args st) = Returned \<and>
    written (new_events st (snd (mustLog env (log st) level calldepth message args st))) =
      record_line env (debugMode st)
        (new_record env lv message args (caller_location env calldepth)) \<and>
    \<not> list_ex refused (new_events st (snd (mustLog env (log st) level calldepth message args st)))"
proof -
  have l: "levelDebug \<le> level"
    using lv by (auto simp add: getColorLevel_def level_defs split: if_splits)
  note v = pkg_inv_valid [OF i l]
  let ?w = "output (heap st ! 0)"
  let ?T = "if debugMode st then debug_template else release_template"
  let ?r = "new_record env lv message args (caller_location env calldepth)"
  let ?x = "fst (Execute env ?T ?w ?r (entered 0 calldepth st))"
  have t: "logRecordTemplate st = Some ?T" using i by (simp add: pkg_inv_def)
  have rd: "render env ?T ?r = Inr (record_line env (debugMode st) ?r)" by (rule render_pkg)
  have x: "?x = None" using acc rd by (rule Execute_accepting)
  from mustLog_exec [OF v(2) v(3) v(4) lv t, of message args calldepth] obtain evs where
    p: "exec_post env ?T ?w ?r (entered 0 calldepth st) evs" and
    m: "mustLog env (Some 0) level calldepth message args st =
         ((case ?x of None \<Rightarrow> Returned | Some e \<Rightarrow> Panicked e),
          st\<lparr>trace := trace st @ [EvLock, EvCaller calldepth] @ evs @ [EvUnlock]\<rparr>)"
    by blast
  from p x rd have wr: "written evs = record_line env (debugMode st) ?r" and nr: "\<not> list_ex refused evs"
    by (simp_all add: exec_post_def)
  have n: "new_events st (snd (mustLog env (log st) level calldepth message args st)) =
      [EvLock, EvCaller calldepth] @ evs @ [EvUnlock]"
    unfolding v(1) m by (simp add: new_events_def)
  show ?thesis unfolding n refused_frame written_frame
    using wr nr x unfolding v(1) m by simp
qed

lemma Base_no_separator:
  "CHR ''/'' \<notin> set (filepath_Base path) \<or> filepath_Base path = ''/''"
  by (auto simp add: filepath_Base_def IsPathSeparator_def Let_def dest: set_takeWhileD)

lemma Base_component:
  assumes "list_ex (\<lambda>c. \<not> IsPathSeparator c) path"
  shows "CHR ''/'' \<notin> set (filepath_Base path) \<and> filepath_Base path \<noteq> []"
proof -
  from assms have ne: "path \<noteq> []" by auto
  let ?d = "dropWhile IsPathSeparator (rev path)"
  from assms have d: "?d \<noteq> []"
    by (auto simp add: dropWhile_eq_Nil_conv list_ex_iff)
  then have "\<not> IsPathSeparator (hd ?d)" by (rule hd_dropWhile)
  with d have tk: "takeWhile (\<lambda>c. \<not> IsPathSeparator c) ?d \<noteq> []"
    by (cases ?d) auto
  have b: "filepath_Base path = rev (takeWhile (\<lambda>c. \<not> IsPathSeparator c) ?d)"
    using ne tk by (simp add: filepath_Base_def Let_def)
  show ?thesis unfolding b using tk
    by (auto simp add: IsPathSeparator_def dest: set_takeWhileD)
qed

subsection \<open>The debug gate\<close>

text \<open>
  Claim C4. With the debug flag off, \<open>Debug\<close> returns and leaves the state as it was,
  whatever the threshold is: no byte is written and the mutex is not taken. The flag is
  the only thing \<open>Debug\<close> reads before the core: with the flag on it is the call of
  \<open>mustLog\<close> at \<open>levelDebug\<close>. On a state that follows the initialisation that call
  would have changed the trace, so with the flag off the core was not called.
\<close>

theorem Debug_gated:
  "(\<not> debugMode st \<longrightarrow>
      Debug env format v st = (Returned, st) \<and>
      Debug env format v (st\<lparr>logLevel := n\<rparr>) = (Returned, st\<lparr>logLevel := n\<rparr>)) \<and>
   (debugMode st \<longrightarrow> Debug env format v st = mustLog env (log st) levelDebug 2 format v st) \<and>
   (pkg_inv st \<longrightarrow> snd (mustLog env (log st) levelDebug 2 format v st) \<noteq> st)"
proof -
  have "pkg_inv st \<longrightarrow> snd (mustLog env (log st) levelDebug 2 format v st) \<noteq> st"
  proof
    assume i: "pkg_inv st"
    from leveled_enters [OF i order_refl, of env 2 format v] obtain N where
      "snd (mustLog env (log st) levelDebug 2 format v st) = st\<lparr>trace := trace st @ EvLock # N\<rparr>" ..
    then show "snd (mustLog env (log st) levelDebug 2 format v st) \<noteq> st"
      by (simp add: trace_grows)
  qed
  then show ?thesis by (simp add: Debug_def)
qed

theorem Debug_gated_witness:
  "\<not> debugMode (init_pkg env0) \<and> pkg_inv (init_pkg env0) \<and>
   Debug env0 ''x=%d'' [AInt 1] (init_pkg env0) = (Returned, init_pkg env0) \<and>
   snd (mustLog env0 (log (init_pkg env0)) levelDebug 2 ''x=%d'' [AInt 1] (init_pkg env0)) \<noteq>
     init_pkg env0 \<and>
   trace (init_pkg env0) = []"
proof -
  have h: "\<not> debugMode (init_pkg env0)" by (simp add: init_env0)
  have i: "pkg_inv (init_pkg env0)" by (rule pkg_inv_init)
  from Debug_gated [of "init_pkg env0" env0 "''x=%d''" "[AInt 1]"] h i show ?thesis
    by (simp add: init_env0)
qed

subsection \<open>The threshold is never changed\<close>

text \<open>
  Claim C10. \<open>logLevel\<close> is initialised to \<open>levelDebug\<close> and no function of the package
  assigns to it: no call and no sequence of calls changes it, from any state. So after
  every sequence of calls that follows the initialisation the threshold is
  \<open>levelDebug\<close>, the level of each of the five entry points is not below it (the
  early return of \<open>mustLog\<close> is not taken), and a call of one of the five leaves the
  state unchanged exactly when it is \<open>Debug\<close> with the debug flag off.
\<close>

theorem threshold_never_suppresses:
  "logLevel (init_pkg ienv) = levelDebug \<and>
   logLevel (snd (run_call env c st0)) = logLevel st0 \<and>
   logLevel (run cs st0) = logLevel st0 \<and>
   logLevel (run cs (init_pkg ienv)) = levelDebug \<and>
   (\<forall>c l. level_of c = Some l \<longrightarrow>
      levelDebug \<le> l \<and> \<not> l < logLevel (run cs (init_pkg ienv))) \<and>
   (\<forall>c env. level_of c \<noteq> None \<longrightarrow>
      (snd (run_call env c (run cs (init_pkg ienv))) = run cs (init_pkg ienv)) =
      (is_Debug c \<and> \<not> debugMode (run cs (init_pkg ienv))))"
proof -
  have i: "pkg_inv (run cs (init_pkg ienv))" by (rule reachable_inv)
  have 0: "logLevel (init_pkg ienv) = levelDebug"
    using pkg_inv_init [of ienv] by (simp add: pkg_inv_def)
  have 1: "logLevel (run cs (init_pkg ienv)) = levelDebug"
    using i by (simp add: pkg_inv_def)
  have 2: "\<forall>c l. level_of c = Some l \<longrightarrow>
      levelDebug \<le> l \<and> \<not> l < logLevel (run cs (init_pkg ienv))"
  proof (intro allI impI)
    fix c l
    assume "level_of c = Some l"
    then have "levelDebug \<le> l" by (cases c) (simp_all add: level_defs)
    with 1 show "levelDebug \<le> l \<and> \<not> l < logLevel (run cs (init_pkg ienv))" by simp
  qed
  have 3: "\<forall>c env. level_of c \<noteq> None \<longrightarrow>
      (snd (run_call env c (run cs (init_pkg ienv))) = run cs (init_pkg ienv)) =
      (is_Debug c \<and> \<not> debugMode (run cs (init_pkg ienv)))"
    using leveled_changes [OF i] by blast
  from 0 1 2 3 run_call_logLevel [of env c st0] run_logLevel [of cs st0] show ?thesis by blast
qed

theorem threshold_never_suppresses_witness:
  "level_of (CallWarn ''w'' []) = Some levelWarn \<and>
   logLevel (run [(env0, CallInfo ''a'' []), (env0, CallSetOutput (Sink 1))] (init_pkg env0)) = levelDebug \<and>
   \<not> levelWarn < logLevel (run [(env0, CallInfo ''a'' []), (env0, CallSetOutput (Sink 1))] (init_pkg env0)) \<and>
   snd (run_call env0 (CallWarn ''w'' [])
          (run [(env0, CallInfo ''a'' []), (env0, CallSetOutput (Sink 1))] (init_pkg env0))) \<noteq>
     run [(env0, CallInfo ''a'' []), (env0, CallSetOutput (Sink 1))] (init_pkg env0) \<and>
   snd (run_call env0 (CallDebug ''d'' [])
          (run [(env0, CallInfo ''a'' []), (env0, CallSetOutput (Sink 1))] (init_pkg env0))) =
     run [(env0, CallInfo ''a'' []), (env0, CallSetOutput (Sink 1))] (init_pkg env0)"
proof -
  let ?cs = "[(env0, CallInfo ''a'' []), (env0, CallSetOutput (Sink 1))]"
  note t = threshold_never_suppresses [of env0 env0 "CallWarn ''w'' []" "init_pkg env0" ?cs]
  have d: "\<not> debugMode (run ?cs (init_pkg env0))"
    by (simp only: init_env0)
      (simp add: Info_def SetOutput_def run_simps env_simps)
  from t have a: "logLevel (run ?cs (init_pkg env0)) = levelDebug" by blast
  from t have b: "\<forall>c l. level_of c = Some l \<longrightarrow>
      levelDebug \<le> l \<and> \<not> l < logLevel (run ?cs (init_pkg env0))" by blast
  from t have c: "\<forall>c env. level_of c \<noteq> None \<longrightarrow>
      (snd (run_call env c (run ?cs (init_pkg env0))) = run ?cs (init_pkg env0)) =
      (is_Debug c \<and> \<not> debugMode (run ?cs (init_pkg env0)))" by blast
  have w: "level_of (CallWarn ''w'' []) = Some levelWarn" by simp
  from b w have b': "\<not> levelWarn < logLevel (run ?cs (init_pkg env0))" by blast
  from c [rule_format, of "CallWarn ''w'' []" env0]
  have c1: "snd (run_call env0 (CallWarn ''w'' []) (run ?cs (init_pkg env0))) \<noteq> run ?cs (init_pkg env0)"
    by simp
  from c [rule_format, of "CallDebug ''d'' []" env0] d
  have c2: "snd (run_call env0 (CallDebug ''d'' []) (run ?cs (init_pkg env0))) = run ?cs (init_pkg env0)"
    by simp
  from w a b' c1 c2 show ?thesis by blast
qed

subsection \<open>\<open>Fatal\<close>\<close>

text \<open>
  Claim C5. \<open>Fatal\<close>, called after any sequence of calls that follows the
  initialisation, ends the process with the status \<open>-1\<close> or panics with the error of a
  refused write; all it writes goes to the current output of the logger. When it ends
  the process, \<open>os.Exit\<close> is its last event and its only exit, no write was refused,
  and the bytes written before the exit are the whole line of the record. When it
  panics, a write was refused and there is no exit. With an output that accepts every
  write it ends the process.
\<close>

theorem Fatal_writes_then_exits:
  fixes cs ienv env format v
  defines "st \<equiv> run cs (init_pkg ienv)"
  defines "R \<equiv> Fatal env format v st"
  defines "N \<equiv> new_events st (snd R)"
  defines "ln \<equiv> record_line env (debugMode st)
     (new_record env (MagentaBold (env_colors env) ''FATAL'') format v (caller_location env 2))"
  shows "(fst R = Exited (- 1) \<or> fst R = Panicked WriteError) \<and>
    snd R = st\<lparr>trace := trace st @ N\<rparr> \<and>
    list_all (\<lambda>p. fst p = output (heap st ! 0)) (writes_of N) \<and>
    (fst R = Exited (- 1) \<longrightarrow>
       N \<noteq> [] \<and> last N = EvExit (- 1) \<and> \<not> list_ex is_exit (butlast N) \<and>
       \<not> list_ex refused N \<and> written (butlast N) = ln) \<and>
    (fst R = Panicked WriteError \<longrightarrow> list_ex refused N \<and> \<not> list_ex is_exit N) \<and>
    ((\<forall>tr s. env_write_ok env tr (output (heap st ! 0)) s) \<longrightarrow> fst R = Exited (- 1))"
proof -
  have i: "pkg_inv st" unfolding st_def by (rule reachable_inv)
  have l: "levelDebug \<le> levelFatal" by (simp add: level_defs)
  note v = pkg_inv_valid [OF i l]
  let ?w = "output (heap st ! 0)"
  let ?T = "if debugMode st then debug_template else release_template"
  let ?r = "new_record env (MagentaBold (env_colors env) ''FATAL'') format v (caller_location env 2)"
  let ?x = "fst (Execute env ?T ?w ?r (entered 0 2 st))"
  have lv: "getColorLevel (env_colors env) levelFatal = Inr (MagentaBold (env_colors env) ''FATAL'')"
    by (simp add: getColorLevel_def getLevelTag_def decorate_def level_defs)
  have t: "logRecordTemplate st = Some ?T" using i by (simp add: pkg_inv_def)
  have rd: "render env ?T ?r = Inr ln" unfolding ln_def by (rule render_pkg)
  from mustLog_exec [OF v(2) v(3) v(4) lv t, of format v 2] obtain evs where
    p: "exec_post env ?T ?w ?r (entered 0 2 st) evs" and
    m: "mustLog env (Some 0) levelFatal 2 format v st =
         ((case ?x of None \<Rightarrow> Returned | Some e \<Rightarrow> Panicked e),
          st\<lparr>trace := trace st @ [EvLock, EvCaller 2] @ evs @ [EvUnlock]\<rparr>)"
    by blast
  from p have w: "list_all (writes_to ?w) evs"
    and ok: "?x = None \<Longrightarrow> render env ?T ?r = Inr (written evs) \<and> \<not> list_ex refused evs"
    and err: "\<And>e. ?x = Some e \<Longrightarrow> e = WriteError \<and> list_ex refused evs \<or> render env ?T ?r = Inl e"
    by (simp_all add: exec_post_def)
  note c = writes_only [OF w]
  note wt = writes_of_target [OF w]
  have acc: "(\<forall>tr s. env_write_ok env tr ?w s) \<longrightarrow> ?x = None"
    using Execute_accepting [OF _ rd, of ?w "entered 0 2 st"] by blast
  show ?thesis
  proof (cases ?x)
    case None
    have r: "R = (Exited (- 1),
        st\<lparr>trace := trace st @ [EvLock, EvCaller 2] @ evs @ [EvUnlock, EvExit (- 1)]\<rparr>)"
      unfolding R_def Fatal_def v(1) m using None by (simp add: emit_def)
    have n: "N = [EvLock, EvCaller 2] @ evs @ [EvUnlock, EvExit (- 1)]"
      unfolding N_def r by (simp add: new_events_def)
    have bl: "butlast N = [EvLock, EvCaller 2] @ evs @ [EvUnlock]"
      unfolding n by (simp add: butlast_append)
    from ok [OF None] rd have wr: "written evs = ln" and nr: "\<not> list_ex refused evs" by simp_all
    have 1: "N \<noteq> [] \<and> last N = EvExit (- 1)" unfolding n by simp
    have 2: "\<not> list_ex is_exit (butlast N)" unfolding bl using c by (simp add: list_ex_iff)
    have 3: "\<not> list_ex refused N" unfolding n using nr by (simp add: list_ex_iff)
    have 4: "written (butlast N) = ln" unfolding bl written_frame by (rule wr)
    have 5: "list_all (\<lambda>p. fst p = ?w) (writes_of N)"
      unfolding n using wt by (simp add: writes_of_append)
    have 6: "snd R = st\<lparr>trace := trace st @ N\<rparr>" unfolding n r by simp
    have 7: "fst R = Exited (- 1)" unfolding r by simp
    from 1 2 3 4 5 6 7 show ?thesis by simp
  next
    case (Some e)
    from err [OF Some] rd have e: "e = WriteError" and rf: "list_ex refused evs" by simp_all
    have r: "R = (Panicked WriteError,
        st\<lparr>trace := trace st @ [EvLock, EvCaller 2] @ evs @ [EvUnlock]\<rparr>)"
      unfolding R_def Fatal_def v(1) m using Some e by simp
    have n: "N = [EvLock, EvCaller 2] @ evs @ [EvUnlock]"
      unfolding N_def r by (simp add: new_events_def)
    have 1: "list_ex refused N" unfolding n refused_frame by (rule rf)
    have 2: "\<not> list_ex is_exit N" unfolding n using c by (simp add: list_ex_iff)
    have 5: "list_all (\<lambda>p. fst p = ?w) (writes_of N)"
      unfolding n using wt by (simp add: writes_of_append)
    have 6: "snd R = st\<lparr>trace := trace st @ N\<rparr>" unfolding n r by simp
    have 7: "fst R = Panicked WriteError" unfolding r by simp
    have 8: "\<not> (\<forall>tr s. env_write_ok env tr ?w s)" using acc Some by auto
    from 1 2 5 6 7 8 show ?thesis by simp
  qed
qed

theorem Fatal_writes_then_exits_witness:
  "(\<forall>tr s. env_write_ok env0 tr (output (heap (run [] (init_pkg env_debug)) ! 0)) s) \<and>
   fst (Fatal env0 ''disk %s'' [AString ''full''] (run [] (init_pkg env_debug))) = Exited (- 1) \<and>
   last (new_events (run [] (init_pkg env_debug))
      (snd (Fatal env0 ''disk %s'' [AString ''full''] (run [] (init_pkg env_debug))))) = EvExit (- 1) \<and>
   written (butlast (new_events (run [] (init_pkg env_debug))
      (snd (Fatal env0 ''disk %s'' [AString ''full''] (run [] (init_pkg env_debug)))))) =
     ''[IIGService] 2024/01/02 03:04:05 FATAL '' @ [CHR 0xE2, CHR 0x96, CHR 0xB6] @
     ''  main.go:42 disk full\<newline>''"
proof -
  have h: "\<forall>tr s. env_write_ok env0 tr (output (heap (run [] (init_pkg env_debug)) ! 0)) s"
    by (simp add: env0_def)
  have ln: "record_line env0 (debugMode (run [] (init_pkg env_debug)))
     (new_record env0 (MagentaBold (env_colors env0) ''FATAL'') ''disk %s'' [AString ''full'']
        (caller_location env0 2)) =
     ''[IIGService] 2024/01/02 03:04:05 FATAL '' @ [CHR 0xE2, CHR 0x96, CHR 0xB6] @
     ''  main.go:42 disk full\<newline>''"
    by (simp only: init_env_debug) (simp add: record_line_def run_simps env_simps)
  note t = Fatal_writes_then_exits [where env = env0 and cs = "[]" and ienv = env_debug
      and format = "''disk %s''" and v = "[AString ''full'']"]
  from t h have e: "fst (Fatal env0 ''disk %s'' [AString ''full''] (run [] (init_pkg env_debug))) = Exited (- 1)"
    by blast
  from t e ln h show ?thesis by simp
qed

subsection \<open>Further auxiliary facts\<close>

lemma Sprintf_plus_v_string:
  "Sprintf env ''   URL: %+v\<newline>'' [AString url] = ''   URL: '' @ url @ ''\<newline>''"
  "Sprintf env ''RESULT: %+v\<newline>'' [AString result] = ''RESULT: '' @ result @ ''\<newline>''"
  by (simp_all add: Sprintf_def one_verb_def print_verb_def extra_def)

lemma Sprintf_plus_v_int:
  "Sprintf env ''  CODE: %+v\<newline>'' [AInt code] = ''  CODE: '' @ itoa code @ ''\<newline>''"
  by (simp add: Sprintf_def one_verb_def print_verb_def extra_def)

lemma getQLogger_first:
  "\<not> once st \<Longrightarrow> getQLogger w st =
     (Inr (Some (length (heap st))),
      st\<lparr>once := True,
         logRecordTemplate := Some (if debugMode st then debug_template else release_template),
         heap := heap st @ [\<lparr>mu = False, output = ColorWriter w\<rparr>],
         instance := Some (length (heap st))\<rparr>)"
  by (simp add: getQLogger_def Let_def parse_release parse_debug)

lemma getQLogger_later: "once st \<Longrightarrow> getQLogger w st = (Inr (instance st), st)"
  by (simp add: getQLogger_def)

lemma getQLogger_once: "once (snd (getQLogger w st))"
  by (cases "once st") (simp_all add: getQLogger_first getQLogger_later)

lemma getQLogger_result: "fst (getQLogger w st) = Inr (instance (snd (getQLogger w st)))"
  by (cases "once st") (simp_all add: getQLogger_first getQLogger_later)

lemma getQLogger_all_once:
  "once st \<Longrightarrow> getQLogger_all ws st = (replicate (length ws) (Inr (instance st)), st)"
  by (induction ws) (simp_all add: getQLogger_later)

lemma getQLogger_all_any:
  "getQLogger_all (w # ws) st =
     (replicate (Suc (length ws)) (fst (getQLogger w st)), snd (getQLogger w st))"
proof -
  obtain r st1 where g: "getQLogger w st = (r, st1)" by (cases "getQLogger w st")
  from getQLogger_once [of w st] g have o: "once st1" by simp
  from getQLogger_result [of w st] g have r: "r = Inr (instance st1)" by simp
  show ?thesis using g r getQLogger_all_once [OF o, of ws] by simp
qed

lemma mustLog_template:
  "logRecordTemplate (snd (mustLog env l level calldepth f v st)) = logRecordTemplate st \<and>
   once (snd (mustLog env l level calldepth f v st)) = once st"
proof -
  from mustLog_only_trace [of env l level calldepth f v st] obtain N where
    "snd (mustLog env l level calldepth f v st) = st\<lparr>trace := trace st @ N\<rparr>" ..
  then show ?thesis by simp
qed

lemma run_call_template:
  assumes "once st"
  shows "logRecordTemplate (snd (run_call env c st)) = logRecordTemplate st \<and>
         once (snd (run_call env c st))"
proof (cases c)
  case (CallFatal f v)
  from Fatal_snd [of env f v st] mustLog_template [of env "log st" levelFatal 2 f v st] assms
  show ?thesis unfolding CallFatal by (auto simp add: emit_def)
next
  case (CallTrace url code result)
  with assms show ?thesis by (simp add: Trace_def Let_def WriteString_def emit_def)
next
  case (CallGetQLogger w)
  with assms show ?thesis by (simp add: getQLogger_later)
next
  case (CallSetOutput w)
  with assms show ?thesis
    by (simp add: SetOutput_def Let_def mu_Lock_def mu_Unlock_def set_mu_def emit_def
        split: option.splits)
qed (simp_all add: Debug_def Info_def Warn_def Error_def mustLog_template assms)

lemma run_template:
  "once st \<Longrightarrow> logRecordTemplate (run cs st) = logRecordTemplate st \<and> once (run cs st)"
proof (induction cs arbitrary: st)
  case Nil
  then show ?case by simp
next
  case (Cons x cs)
  obtain env c where x: "x = (env, c)" by (cases x)
  obtain oc st1 where r: "run_call env c st = (oc, st1)" by (cases "run_call env c st")
  from run_call_template [OF Cons.prems, of env c] r
  have t: "logRecordTemplate st1 = logRecordTemplate st" and o: "once st1" by simp_all
  show ?case using x r t o Cons.IH [OF o] by (cases oc) simp_all
qed

lemma Execute_cong:
  assumes "\<And>n. n \<in> set t \<Longrightarrow> eval_node env' r' n = eval_node env r n"
    and "env_write_ok env' = env_write_ok env"
  shows "Execute env' t w r' st = Execute env t w r st"
  using assms
proof (induction t arbitrary: st)
  case Nil
  show ?case by simp
next
  case (Cons n ns)
  have e: "eval_node env' r' n = eval_node env r n" using Cons.prems(1) by simp
  have ih: "\<And>st. Execute env' ns w r' st = Execute env ns w r st"
    using Cons.IH Cons.prems by simp
  show ?case by (simp add: e ih Cons.prems(2) split: sum.splits)
qed

lemma Now_caller: "Now (env\<lparr>env_Caller := k\<rparr>) layout = Now env layout"
  by (simp add: Now_def split: option.splits)

lemma Sprintf_caller: "Sprintf (env\<lparr>env_Caller := k\<rparr>) f v = Sprintf env f v"
  by (simp add: Sprintf_def split: option.splits)

lemma release_ignores_caller:
  "Execute (env\<lparr>env_Caller := k\<rparr>) release_template w
      (new_record (env\<lparr>env_Caller := k\<rparr>) lv f v loc') st =
   Execute env release_template w (new_record env lv f v loc) st"
  by (rule Execute_cong)
    (auto simp add: release_template_def eval_node_def new_record_def Now_caller Sprintf_caller)

lemma mustLog_ignores_caller:
  assumes "logRecordTemplate st = Some release_template"
  shows "mustLog (env\<lparr>env_Caller := k\<rparr>) l level calldepth f v st =
         mustLog env l level calldepth f v st"
  using assms release_ignores_caller [where env = env and k = k and loc = "caller_location env calldepth"]
  by (simp add: mustLog_def Let_def mu_Lock_def emit_def set_mu_def
      split: option.splits sum.splits)

lemma leveled_ignores_caller:
  assumes "logRecordTemplate st = Some release_template" and "level_of c \<noteq> None"
  shows "run_call (env\<lparr>env_Caller := k\<rparr>) c st = run_call env c st"
  using assms
  by (cases c) (simp_all add: Debug_def Info_def Warn_def Error_def Fatal_def mustLog_ignores_caller)

lemma templates_differ: "debug_template \<noteq> release_template"
  by (simp add: debug_template_def release_template_def)

lemma concise_not_debug:
  assumes "pkg_inv st" "logRecordTemplate st = Some release_template"
  shows "\<not> debugMode st"
  using assms templates_differ by (auto simp add: pkg_inv_def split: if_splits)

lemma concise_reachable:
  assumes "env_Getenv ienv ''IIGSDEBUG'' \<noteq> ''1''"
  shows "logRecordTemplate (run cs (init_pkg ienv)) = Some release_template"
proof -
  have "once (init_pkg ienv)" using pkg_inv_init [of ienv] by (simp add: pkg_inv_def)
  from run_template [OF this, of cs] show ?thesis by (simp add: init_release [OF assms])
qed

subsection \<open>The location of the caller\<close>

text \<open>
  Claim C9. \<open>filepath.Base\<close> of a path whose last element is \<open>name\<close>, after any
  directories and before any trailing separators, is \<open>name\<close>; of the empty path it is
  \<open>.\<close> and of a path of separators only it is one separator. When \<open>runtime.Caller\<close>
  fails, the location is the sentinel \<open>???\<close> with line 0 and the record carries exactly
  these two values. When it succeeds with a file and a line, the record carries the line
  and \<open>filepath.Base\<close> of the file: the last element of the path, with no directory
  and no separator in it. With a valid level and an output that accepts every write,
  \<open>mustLog\<close> on a state that follows the initialisation returns, no write is refused,
  and the bytes written are the line of that record: with \<open>???\<close> and 0 after a failed
  lookup, with the base name and the line after a successful one.
\<close>

theorem caller_fallback:
  fixes cs ienv env level lv message args calldepth path lineno pre name k
  defines "st \<equiv> run cs (init_pkg ienv)"
  defines "r \<equiv> new_record env lv message args (caller_location env calldepth)"
  defines "evs \<equiv> new_events st (snd (mustLog env (log st) level calldepth message args st))"
  shows
   "(name \<noteq> [] \<and> CHR ''/'' \<notin> set name \<and> (pre = [] \<or> last pre = CHR ''/'') \<longrightarrow>
       filepath_Base (pre @ name @ replicate k (CHR ''/'')) = name) \<and>
    filepath_Base [] = ''.'' \<and> filepath_Base (replicate (Suc k) (CHR ''/'')) = ''/'' \<and>
    (env_Caller env calldepth = None \<longrightarrow>
       caller_location env calldepth = (''???'', 0) \<and> Filename r = ''???'' \<and> LineNo r = 0) \<and>
    (env_Caller env calldepth = Some (path, lineno) \<longrightarrow>
       caller_location env calldepth = (path, lineno) \<and>
       Filename r = filepath_Base path \<and> LineNo r = lineno \<and>
       (CHR ''/'' \<notin> set (Filename r) \<or> Filename r = ''/'') \<and>
       (list_ex (\<lambda>c. \<not> IsPathSeparator c) path \<longrightarrow>
          CHR ''/'' \<notin> set (Filename r) \<and> Filename r \<noteq> [])) \<and>
    (env_Caller env calldepth = Some (pre @ name @ replicate k (CHR ''/''), lineno) \<and>
     name \<noteq> [] \<and> CHR ''/'' \<notin> set name \<and> (pre = [] \<or> last pre = CHR ''/'') \<longrightarrow>
       Filename r = name \<and> LineNo r = lineno) \<and>
    (getColorLevel (env_colors env) level = Inr lv \<and>
     (\<forall>tr s. env_write_ok env tr (output (heap st ! 0)) s) \<longrightarrow>
       fst (mustLog env (log st) level calldepth message args st) = Returned \<and>
       \<not> list_ex refused evs \<and>
       written evs = record_line env (debugMode st) r \<and>
       (env_Caller env calldepth = None \<longrightarrow>
          written evs = record_line env (debugMode st)
            \<lparr>ID = [], Level = lv, Message = Sprintf env message args,
             Filename = ''???'', LineNo = 0\<rparr>) \<and>
       (env_Caller env calldepth = Some (pre @ name @ replicate k (CHR ''/''), lineno) \<and>
        name \<noteq> [] \<and> CHR ''/'' \<notin> set name \<and> (pre = [] \<or> last pre = CHR ''/'') \<longrightarrow>
          written evs = record_line env (debugMode st)
            \<lparr>ID = [], Level = lv, Message = Sprintf env message args,
             Filename = name, LineNo = lineno\<rparr>))"
proof -
  have 0: "name \<noteq> [] \<and> CHR ''/'' \<notin> set name \<and> (pre = [] \<or> last pre = CHR ''/'') \<longrightarrow>
       filepath_Base (pre @ name @ replicate k (CHR ''/'')) = name"
  proof (intro impI, elim conjE)
    assume n: "name \<noteq> []" and s: "CHR ''/'' \<notin> set name"
      and p: "pre = [] \<or> last pre = CHR ''/''"
    let ?sep = IsPathSeparator
    let ?path = "pre @ name @ replicate k (CHR ''/'')"
    have r: "rev ?path = replicate k (CHR ''/'') @ rev name @ rev pre" by simp
    from n obtain a as where rn: "rev name = a # as" by (cases "rev name") auto
    with s have a: "\<not> ?sep a" by (metis IsPathSeparator_def list.set_intros(1) set_rev)
    have d0: "dropWhile ?sep (replicate k (CHR ''/'') @ ys) = dropWhile ?sep ys" for ys
      by (rule dropWhile_append2) (simp add: IsPathSeparator_def)
    have d: "dropWhile ?sep (rev ?path) = rev name @ rev pre"
      unfolding r d0 using a by (simp add: rn)
    have t0: "takeWhile (\<lambda>c. \<not> ?sep c) (rev pre) = []"
      using p by (cases "rev pre") (auto simp add: IsPathSeparator_def last_rev [symmetric] simp del: last_rev)
    have t1: "takeWhile (\<lambda>c. \<not> ?sep c) (rev name @ rev pre) =
        rev name @ takeWhile (\<lambda>c. \<not> ?sep c) (rev pre)"
      by (rule takeWhile_append2) (use s in \<open>auto simp add: IsPathSeparator_def\<close>)
    have t: "takeWhile (\<lambda>c. \<not> ?sep c) (rev name @ rev pre) = rev name"
      unfolding t1 t0 by simp
    show "filepath_Base ?path = name"
      using n d t by (simp add: filepath_Base_def Let_def del: rev_append rev_replicate)
  qed
  have bs: "filepath_Base ''???'' = ''???''"
    by (simp add: filepath_Base_def IsPathSeparator_def)
  have 1: "env_Caller env calldepth = None \<longrightarrow>
       caller_location env calldepth = (''???'', 0) \<and> Filename r = ''???'' \<and> LineNo r = 0"
    unfolding r_def by (simp add: caller_location_def new_record_def bs)
  have 2: "env_Caller env calldepth = Some (path, lineno) \<longrightarrow>
       caller_location env calldepth = (path, lineno) \<and>
       Filename r = filepath_Base path \<and> LineNo r = lineno \<and>
       (CHR ''/'' \<notin> set (Filename r) \<or> Filename r = ''/'') \<and>
       (list_ex (\<lambda>c. \<not> IsPathSeparator c) path \<longrightarrow>
          CHR ''/'' \<notin> set (Filename r) \<and> Filename r \<noteq> [])"
  proof
    assume c: "env_Caller env calldepth = Some (path, lineno)"
    then have cl: "caller_location env calldepth = (path, lineno)"
      by (simp add: caller_location_def)
    then have f: "Filename r = filepath_Base path" and l: "LineNo r = lineno"
      unfolding r_def by (simp_all add: new_record_def)
    from Base_no_separator [of path] Base_component [of path] cl f l
    show "caller_location env calldepth = (path, lineno) \<and>
       Filename r = filepath_Base path \<and> LineNo r = lineno \<and>
       (CHR ''/'' \<notin> set (Filename r) \<or> Filename r = ''/'') \<and>
       (list_ex (\<lambda>c. \<not> IsPathSeparator c) path \<longrightarrow>
          CHR ''/'' \<notin> set (Filename r) \<and> Filename r \<noteq> [])"
      by simp
  qed
  have 3: "env_Caller env calldepth = Some (pre @ name @ replicate k (CHR ''/''), lineno) \<and>
     name \<noteq> [] \<and> CHR ''/'' \<notin> set name \<and> (pre = [] \<or> last pre = CHR ''/'') \<longrightarrow>
       r = \<lparr>ID = [], Level = lv, Message = Sprintf env message args,
             Filename = name, LineNo = lineno\<rparr>"
  proof (intro impI, elim conjE)
    assume c: "env_Caller env calldepth = Some (pre @ name @ replicate k (CHR ''/''), lineno)"
      and n: "name \<noteq> []" "CHR ''/'' \<notin> set name" "pre = [] \<or> last pre = CHR ''/''"
    from c have cl: "caller_location env calldepth = (pre @ name @ replicate k (CHR ''/''), lineno)"
      by (simp add: caller_location_def)
    show "r = \<lparr>ID = [], Level = lv, Message = Sprintf env message args,
             Filename = name, LineNo = lineno\<rparr>"
      unfolding r_def cl new_record_def using 0 n by simp
  qed
  have 4: "env_Caller env calldepth = None \<longrightarrow>
       r = \<lparr>ID = [], Level = lv, Message = Sprintf env message args,
             Filename = ''???'', LineNo = 0\<rparr>"
    unfolding r_def by (simp add: caller_location_def new_record_def bs)
  have 5: "getColorLevel (env_colors env) level = Inr lv \<and>
     (\<forall>tr s. env_write_ok env tr (output (heap st ! 0)) s) \<longrightarrow>
       fst (mustLog env (log st) level calldepth message args st) = Returned \<and>
       \<not> list_ex refused evs \<and>
       written evs = record_line env (debugMode st) r"
  proof (intro impI, elim conjE)
    assume lv: "getColorLevel (env_colors env) level = Inr lv"
      and acc: "\<forall>tr s. env_write_ok env tr (output (heap st ! 0)) s"
    have i: "pkg_inv st" unfolding st_def by (rule reachable_inv)
    from acc have acc': "\<And>tr s. env_write_ok env tr (output (heap st ! 0)) s" by simp
    from mustLog_accepting [OF i lv acc', of calldepth message args]
    show "fst (mustLog env (log st) level calldepth message args st) = Returned \<and>
       \<not> list_ex refused evs \<and>
       written evs = record_line env (debugMode st) r"
      unfolding evs_def r_def by simp
  qed
  from 3 have 7: "env_Caller env calldepth = Some (pre @ name @ replicate k (CHR ''/''), lineno) \<and>
     name \<noteq> [] \<and> CHR ''/'' \<notin> set name \<and> (pre = [] \<or> last pre = CHR ''/'') \<longrightarrow>
       Filename r = name \<and> LineNo r = lineno"
    by simp
  have 6: "written evs = record_line env (debugMode st) r \<longrightarrow>
       (env_Caller env calldepth = None \<longrightarrow>
          written evs = record_line env (debugMode st)
            \<lparr>ID = [], Level = lv, Message = Sprintf env message args,
             Filename = ''???'', LineNo = 0\<rparr>) \<and>
       (env_Caller env calldepth = Some (pre @ name @ replicate k (CHR ''/''), lineno) \<and>
        name \<noteq> [] \<and> CHR ''/'' \<notin> set name \<and> (pre = [] \<or> last pre = CHR ''/'') \<longrightarrow>
          written evs = record_line env (debugMode st)
            \<lparr>ID = [], Level = lv, Message = Sprintf env message args,
             Filename = name, LineNo = lineno\<rparr>)"
    using 3 4 by metis
  have 8: "filepath_Base [] = ''.'' \<and> filepath_Base (replicate (Suc k) (CHR ''/'')) = ''/''"
    by (simp add: filepath_Base_def Let_def IsPathSeparator_def dropWhile_eq_Nil_conv
        del: replicate_Suc)
  from 0 8 1 2 7 5 6 show ?thesis by blast
qed

theorem caller_fallback_witness:
  "env_Caller env_nocaller 2 = None \<and>
   getColorLevel (env_colors env_nocaller) levelWarn = Inr ''WARN '' \<and>
   (\<forall>tr s. env_write_ok env_nocaller tr (output (heap (run [] (init_pkg env_debug)) ! 0)) s) \<and>
   fst (mustLog env_nocaller (log (run [] (init_pkg env_debug))) levelWarn 2 ''low disk'' []
          (run [] (init_pkg env_debug))) = Returned \<and>
   written (new_events (run [] (init_pkg env_debug))
      (snd (mustLog env_nocaller (log (run [] (init_pkg env_debug))) levelWarn 2 ''low disk'' []
          (run [] (init_pkg env_debug))))) =
     ''[IIGService] 2024/01/02 03:04:05 WARN  '' @ [CHR 0xE2, CHR 0x96, CHR 0xB6] @
     ''  ???:0 low disk\<newline>'' \<and>
   env_Caller env_debug 2 = Some (''/home/u/app/main.go'', 42) \<and>
   filepath_Base ''/home/u/app/main.go'' = ''main.go'' \<and>
   filepath_Base ''main.go'' = ''main.go'' \<and>
   filepath_Base ''/home/u/app/'' = ''app'' \<and>
   Filename (new_record env_debug ''WARN '' ''low disk'' [] (caller_location env_debug 2)) =
     ''main.go'' \<and>
   written (new_events (run [] (init_pkg env_debug))
      (snd (mustLog env_debug (log (run [] (init_pkg env_debug))) levelWarn 2 ''low disk'' []
          (run [] (init_pkg env_debug))))) =
     ''[IIGService] 2024/01/02 03:04:05 WARN  '' @ [CHR 0xE2, CHR 0x96, CHR 0xB6] @
     ''  main.go:42 low disk\<newline>''"
proof -
  have h1: "env_Caller env_nocaller 2 = None" by (simp add: env_simps)
  have h2: "getColorLevel (env_colors env_nocaller) levelWarn = Inr ''WARN ''"
    by (simp add: env_simps getColorLevel_def getLevelTag_def decorate_def level_defs)
  have h3: "\<forall>tr s. env_write_ok env_nocaller tr (output (heap (run [] (init_pkg env_debug)) ! 0)) s"
    by (simp add: env_simps)
  have ln: "record_line env_nocaller (debugMode (run [] (init_pkg env_debug)))
           \<lparr>ID = [], Level = ''WARN '', Message = Sprintf env_nocaller ''low disk'' [],
            Filename = ''???'', LineNo = 0\<rparr> =
     ''[IIGService] 2024/01/02 03:04:05 WARN  '' @ [CHR 0xE2, CHR 0x96, CHR 0xB6] @
     ''  ???:0 low disk\<newline>''"
    by (simp only: init_env_debug) (simp add: record_line_def run_simps env_simps)
  note t = caller_fallback [where env = env_nocaller and cs = "[]" and ienv = env_debug
      and level = levelWarn and lv = "''WARN ''" and calldepth = 2
      and message = "''low disk''" and args = "[]" and pre = "[]" and name = "''main.go''"
      and k = 0 and lineno = 42 and path = "''main.go''"]
  from t h1 h2 h3 ln have a: "fst (mustLog env_nocaller (log (run [] (init_pkg env_debug))) levelWarn 2 ''low disk'' []
          (run [] (init_pkg env_debug))) = Returned \<and>
   written (new_events (run [] (init_pkg env_debug))
      (snd (mustLog env_nocaller (log (run [] (init_pkg env_debug))) levelWarn 2 ''low disk'' []
          (run [] (init_pkg env_debug))))) =
     ''[IIGService] 2024/01/02 03:04:05 WARN  '' @ [CHR 0xE2, CHR 0x96, CHR 0xB6] @
     ''  ???:0 low disk\<newline>''"
    by (simp add: new_record_def filepath_Base_def IsPathSeparator_def)
  have g1: "env_Caller env_debug 2 = Some (''/home/u/app/'' @ ''main.go'' @ replicate 0 (CHR ''/''), 42)"
    by (simp add: env_simps)
  have g2: "getColorLevel (env_colors env_debug) levelWarn = Inr ''WARN ''"
    by (simp add: env_simps getColorLevel_def getLevelTag_def decorate_def level_defs)
  have g3: "\<forall>tr s. env_write_ok env_debug tr (output (heap (run [] (init_pkg env_debug)) ! 0)) s"
    by (simp add: env_simps)
  have g4: "''main.go'' \<noteq> [] \<and> CHR ''/'' \<notin> set ''main.go'' \<and>
      (''/home/u/app/'' = [] \<or> last ''/home/u/app/'' = CHR ''/'')"
    by simp
  have gl: "record_line env_debug (debugMode (run [] (init_pkg env_debug)))
           \<lparr>ID = [], Level = ''WARN '', Message = Sprintf env_debug ''low disk'' [],
            Filename = ''main.go'', LineNo = 42\<rparr> =
     ''[IIGService] 2024/01/02 03:04:05 WARN  '' @ [CHR 0xE2, CHR 0x96, CHR 0xB6] @
     ''  main.go:42 low disk\<newline>''"
    by (simp only: init_env_debug) (simp add: record_line_def run_simps env_simps)
  note u = caller_fallback [where env = env_debug and cs = "[]" and ienv = env_debug
      and level = levelWarn and lv = "''WARN ''" and calldepth = 2
      and message = "''low disk''" and args = "[]" and pre = "''/home/u/app/''"
      and name = "''main.go''" and k = 0 and lineno = 42 and path = "''/home/u/app/main.go''"]
  from u g1 g2 g3 g4 have b0: "filepath_Base (''/home/u/app/'' @ ''main.go'' @ replicate 0 (CHR ''/'')) = ''main.go'' \<and>
     Filename (new_record env_debug ''WARN '' ''low disk'' [] (caller_location env_debug 2)) = ''main.go'' \<and>
     written (new_events (run [] (init_pkg env_debug))
      (snd (mustLog env_debug (log (run [] (init_pkg env_debug))) levelWarn 2 ''low disk'' []
          (run [] (init_pkg env_debug))))) =
     record_line env_debug (debugMode (run [] (init_pkg env_debug)))
           \<lparr>ID = [], Level = ''WARN '', Message = Sprintf env_debug ''low disk'' [],
            Filename = ''main.go'', LineNo = 42\<rparr>"
    by blast
  have c: "filepath_Base ''main.go'' = ''main.go'' \<and> filepath_Base ''/home/u/app/'' = ''app''"
    by (simp add: filepath_Base_def IsPathSeparator_def)
  have g1': "env_Caller env_debug 2 = Some (''/home/u/app/main.go'', 42)"
    by (simp add: env_simps)
  have d1: "written (new_events (run [] (init_pkg env_debug))
      (snd (mustLog env_nocaller (log (run [] (init_pkg env_debug))) levelWarn 2 ''low disk'' []
          (run [] (init_pkg env_debug))))) =
     ''[IIGService] 2024/01/02 03:04:05 WARN  '' @ [CHR 0xE2, CHR 0x96, CHR 0xB6] @
     ''  ???:0 low disk\<newline>''"
    by (simp only: run.simps init_env_debug) (simp add: run_simps env_simps)
  have d2: "written (new_events (run [] (init_pkg env_debug))
      (snd (mustLog env_debug (log (run [] (init_pkg env_debug))) levelWarn 2 ''low disk'' []
          (run [] (init_pkg env_debug))))) =
     ''[IIGService] 2024/01/02 03:04:05 WARN  '' @ [CHR 0xE2, CHR 0x96, CHR 0xB6] @
     ''  main.go:42 low disk\<newline>''"
    by (simp only: run.simps init_env_debug) (simp add: run_simps env_simps)
  from a b0 c h1 h2 h3 g1' d1 d2 show ?thesis unfolding gl [symmetric] by simp
qed

subsection \<open>\<open>Trace\<close>\<close>

lemma line_count_append: "line_count (xs @ ys) = line_count xs + line_count ys"
  by (simp add: line_count_def)

lemma line_count_zero: "(line_count s = 0) = (CHR 0x0A \<notin> set s)"
  by (simp add: line_count_def count_list_0_iff)

lemma digit_char_no_newline: "n < 10 \<Longrightarrow> digit_char n \<noteq> CHR 0x0A"
proof -
  assume "n < 10"
  then have "''0123456789'' ! n \<in> set ''0123456789''" by (intro nth_mem) simp
  then show ?thesis by (auto simp add: digit_char_def)
qed

lemma itoa_nat_no_newline: "CHR 0x0A \<notin> set (itoa_nat n)"
proof (induction n rule: itoa_nat.induct)
  case (1 n)
  show ?case
  proof (cases "n < 10")
    case True
    then show ?thesis using digit_char_no_newline [of n] by (simp add: itoa_nat.simps [of n])
  next
    case False
    then show ?thesis using 1 digit_char_no_newline [of "n mod 10"]
      by (simp add: itoa_nat.simps [of n])
  qed
qed

lemma itoa_line_count: "line_count (itoa i) = 0"
  by (simp add: line_count_zero itoa_def itoa_nat_no_newline)

lemma Trace_line_count:
  assumes "\<And>s. line_count (mb s) = line_count s"
  shows "line_count (''=================================\<newline>'' @
      mb (''   URL: '' @ url @ ''\<newline>'') @
      mb (''  CODE: '' @ itoa code @ ''\<newline>'') @
      mb (''RESULT: '' @ result @ ''\<newline>'')) = 4 + line_count url + line_count result"
  unfolding line_count_append assms itoa_line_count
  by (simp add: line_count_def)

text \<open>
  Claim C6, amended. \<open>Trace\<close> returns and adds exactly four events to the trace, all
  of them writes on the colour writer of standard output: the banner line, and the texts
  of the URL, of the code and of the result, each \<open>label: value\<close> with a newline under
  \<open>MagentaBold\<close>. Nothing else of the state changes, so no mutex is taken. The four
  writes are the same from every other state \<open>st'\<close>, whatever its threshold, template,
  store and pointers are, and after \<open>SetOutput\<close>. When standard output accepts every
  write, none is refused and the bytes that reach it are the four texts in this order.
  When moreover the colour adds no newline, the output has four lines and one more for
  every newline in the URL and in the result: exactly four if and only if neither has
  one.
\<close>

theorem Trace_independent:
  fixes env url code result st st' l w
  defines "evs \<equiv> new_events st (snd (Trace env url code result st))"
  defines "evs' \<equiv> new_events st' (snd (Trace env url code result st'))"
  defines "evs'' \<equiv> new_events (snd (SetOutput l w st))
     (snd (Trace env url code result (snd (SetOutput l w st))))"
  defines "four \<equiv>
     [''=================================\<newline>'',
      MagentaBold (env_colors env) (''   URL: '' @ url @ ''\<newline>''),
      MagentaBold (env_colors env) (''  CODE: '' @ itoa code @ ''\<newline>''),
      MagentaBold (env_colors env) (''RESULT: '' @ result @ ''\<newline>'')]"
  shows
   "fst (Trace env url code result st) = Returned \<and>
    snd (Trace env url code result st) = st\<lparr>trace := trace st @ evs\<rparr> \<and>
    length evs = 4 \<and>
    list_all (writes_to (ColorWriter Stdout)) evs \<and>
    writes_of evs = map (Pair (ColorWriter Stdout)) four \<and>
    writes_of evs' = map (Pair (ColorWriter Stdout)) four \<and>
    writes_of evs'' = map (Pair (ColorWriter Stdout)) four \<and>
    ((\<forall>tr s. env_write_ok env tr (ColorWriter Stdout) s) \<longrightarrow>
       \<not> list_ex refused evs \<and>
       written evs = concat four \<and> written evs' = concat four \<and> written evs'' = concat four) \<and>
    ((\<forall>tr s. env_write_ok env tr (ColorWriter Stdout) s) \<and>
     (\<forall>s. line_count (MagentaBold (env_colors env) s) = line_count s) \<longrightarrow>
       line_count (written evs) = 4 + line_count url + line_count result \<and>
       (line_count (written evs) = 4) =
         (CHR 0x0A \<notin> set url \<and> CHR 0x0A \<notin> set result))"
proof -
  have a: "fst (Trace env url code result s) = Returned \<and>
    snd (Trace env url code result s) =
      s\<lparr>trace := trace s @ new_events s (snd (Trace env url code result s))\<rparr> \<and>
    length (new_events s (snd (Trace env url code result s))) = 4 \<and>
    list_all (writes_to (ColorWriter Stdout)) (new_events s (snd (Trace env url code result s))) \<and>
    writes_of (new_events s (snd (Trace env url code result s))) =
      map (Pair (ColorWriter Stdout)) four" for s
    unfolding four_def
    by (simp add: Trace_def Let_def WriteString_def emit_def new_events_def
        Sprintf_plus_v_string Sprintf_plus_v_int)
  have d: "(\<forall>tr s. env_write_ok env tr (ColorWriter Stdout) s) \<longrightarrow>
       \<not> list_ex refused evs \<and>
       written evs = concat four \<and> written evs' = concat four \<and> written evs'' = concat four"
  proof
    assume acc: "\<forall>tr s. env_write_ok env tr (ColorWriter Stdout) s"
    have w: "\<not> list_ex refused (new_events s (snd (Trace env url code result s))) \<and>
        written (new_events s (snd (Trace env url code result s))) = concat four" for s
      unfolding four_def using acc
      by (simp add: Trace_def Let_def WriteString_def emit_def new_events_def written_def
          Sprintf_plus_v_string Sprintf_plus_v_int)
    show "\<not> list_ex refused evs \<and>
       written evs = concat four \<and> written evs' = concat four \<and> written evs'' = concat four"
      unfolding evs_def evs'_def evs''_def
      using w [of st] w [of st'] w [of "snd (SetOutput l w st)"] by simp
  qed
  have e: "(\<forall>tr s. env_write_ok env tr (ColorWriter Stdout) s) \<and>
     (\<forall>s. line_count (MagentaBold (env_colors env) s) = line_count s) \<longrightarrow>
       line_count (written evs) = 4 + line_count url + line_count result \<and>
       (line_count (written evs) = 4) =
         (CHR 0x0A \<notin> set url \<and> CHR 0x0A \<notin> set result)"
  proof (intro impI, elim conjE)
    assume acc: "\<forall>tr s. env_write_ok env tr (ColorWriter Stdout) s"
      and mb: "\<forall>s. line_count (MagentaBold (env_colors env) s) = line_count s"
    from d acc have wr: "written evs = concat four" by simp
    from mb have mb': "\<And>s. line_count (MagentaBold (env_colors env) s) = line_count s" by simp
    have n: "line_count (written evs) = 4 + line_count url + line_count result"
      unfolding wr four_def using Trace_line_count [of "MagentaBold (env_colors env)", OF mb', of url code result]
      by simp
    show "line_count (written evs) = 4 + line_count url + line_count result \<and>
       (line_count (written evs) = 4) =
         (CHR 0x0A \<notin> set url \<and> CHR 0x0A \<notin> set result)"
      unfolding n by (simp add: line_count_zero)
  qed
  from a [of st] a [of st'] a [of "snd (SetOutput l w st)"] d e show ?thesis
    unfolding evs_def evs'_def evs''_def by blast
qed

theorem Trace_independent_witness:
  "(\<forall>tr s. env_write_ok env0 tr (ColorWriter Stdout) s) \<and>
   (\<forall>s. line_count (MagentaBold (env_colors env0) s) = line_count s) \<and>
   levelFatal < logLevel ((init_pkg env0)\<lparr>logLevel := 5\<rparr>) \<and>
   Error env0 ''boom'' [] ((init_pkg env0)\<lparr>logLevel := 5\<rparr>) =
     (Returned, (init_pkg env0)\<lparr>logLevel := 5\<rparr>) \<and>
   written (new_events ((init_pkg env0)\<lparr>logLevel := 5\<rparr>)
      (snd (Trace env0 ''http://x/y'' 404 ''not found'' ((init_pkg env0)\<lparr>logLevel := 5\<rparr>)))) =
     ''=================================\<newline>'' @ ''   URL: http://x/y\<newline>'' @
     ''  CODE: 404\<newline>'' @ ''RESULT: not found\<newline>'' \<and>
   line_count (written (new_events ((init_pkg env0)\<lparr>logLevel := 5\<rparr>)
      (snd (Trace env0 ''http://x/y'' 404 ''not found'' ((init_pkg env0)\<lparr>logLevel := 5\<rparr>))))) = 4"
proof -
  have h1: "\<forall>tr s. env_write_ok env0 tr (ColorWriter Stdout) s" by (simp add: env0_def)
  have h2: "\<forall>s. line_count (MagentaBold (env_colors env0) s) = line_count s"
    by (simp add: env0_def plain_def)
  have h3: "levelFatal < logLevel ((init_pkg env0)\<lparr>logLevel := 5\<rparr>)"
    by (simp add: level_defs)
  have h4: "Error env0 ''boom'' [] ((init_pkg env0)\<lparr>logLevel := 5\<rparr>) =
     (Returned, (init_pkg env0)\<lparr>logLevel := 5\<rparr>)"
    by (simp add: Error_def mustLog_def level_defs)
  have i: "itoa 404 = ''404''" by (simp add: itoa_def itoa_nat.simps digit_char_def)
  have m: "MagentaBold (env_colors env0) = (\<lambda>s. s)" by (simp add: env0_def plain_def)
  have n: "line_count ''http://x/y'' = 0 \<and> line_count ''not found'' = 0"
    by (simp add: line_count_def)
  have w: "written (new_events ((init_pkg env0)\<lparr>logLevel := 5\<rparr>)
      (snd (Trace env0 ''http://x/y'' 404 ''not found'' ((init_pkg env0)\<lparr>logLevel := 5\<rparr>)))) =
     ''=================================\<newline>'' @ ''   URL: http://x/y\<newline>'' @
     ''  CODE: 404\<newline>'' @ ''RESULT: not found\<newline>''"
    by (simp add: Trace_def Let_def WriteString_def emit_def new_events_def written_def
        Sprintf_plus_v_string Sprintf_plus_v_int i m h1)
  note t = Trace_independent [where env = env0 and url = "''http://x/y''" and code = 404
      and result = "''not found''" and st = "(init_pkg env0)\<lparr>logLevel := 5\<rparr>"
      and st' = "init_pkg env0" and l = None and w = Stdout]
  from t h1 h2 have "line_count (written (new_events ((init_pkg env0)\<lparr>logLevel := 5\<rparr>)
      (snd (Trace env0 ''http://x/y'' 404 ''not found'' ((init_pkg env0)\<lparr>logLevel := 5\<rparr>))))) =
      4 + line_count ''http://x/y'' + line_count ''not found''"
    by blast
  with n have c: "line_count (written (new_events ((init_pkg env0)\<lparr>logLevel := 5\<rparr>)
      (snd (Trace env0 ''http://x/y'' 404 ''not found'' ((init_pkg env0)\<lparr>logLevel := 5\<rparr>))))) = 4"
    by simp
  from h1 h2 h3 h4 w c show ?thesis by simp
qed

text \<open>
  A result body of two lines: the output of \<open>Trace\<close> then has five lines, so that
  \<open>exactly four lines\<close> does not hold for every input.
\<close>

theorem Trace_multiline_result:
  "fst (Trace env0 ''http://x/y'' 200 ''a\<newline>b'' (init_pkg env0)) = Returned \<and>
   written (new_events (init_pkg env0)
      (snd (Trace env0 ''http://x/y'' 200 ''a\<newline>b'' (init_pkg env0)))) =
     ''=================================\<newline>'' @ ''   URL: http://x/y\<newline>'' @
     ''  CODE: 200\<newline>'' @ ''RESULT: a\<newline>'' @ ''b\<newline>'' \<and>
   line_count (written (new_events (init_pkg env0)
      (snd (Trace env0 ''http://x/y'' 200 ''a\<newline>b'' (init_pkg env0))))) = 5 \<and>
   line_count (written (new_events (init_pkg env0)
      (snd (Trace env0 ''http://x/y'' 200 ''a\<newline>b'' (init_pkg env0))))) \<noteq> 4"
proof -
  have i: "itoa 200 = ''200''" by (simp add: itoa_def itoa_nat.simps digit_char_def)
  have w: "written (new_events (init_pkg env0)
      (snd (Trace env0 ''http://x/y'' 200 ''a\<newline>b'' (init_pkg env0)))) =
     ''=================================\<newline>'' @ ''   URL: http://x/y\<newline>'' @
     ''  CODE: 200\<newline>'' @ ''RESULT: a\<newline>'' @ ''b\<newline>''"
    by (simp add: Trace_def Let_def WriteString_def emit_def new_events_def written_def
        Sprintf_plus_v_string Sprintf_plus_v_int i env0_def plain_def)
  have r: "fst (Trace env0 ''http://x/y'' 200 ''a\<newline>b'' (init_pkg env0)) = Returned"
    by (simp add: Trace_def Let_def)
  show ?thesis unfolding w using r by (simp add: line_count_def)
qed

subsection \<open>The singleton and its template\<close>

text \<open>
  Claim C3. The first call of \<open>getQLogger\<close> allocates the logger with the colour writer
  of its argument as output, selects the template by the debug flag, and returns the
  pointer. Every later call, with any writer, returns the same pointer and changes
  nothing; so does every sequence of calls (\<open>sync.Once\<close> puts concurrent calls into such
  a sequence). Once initialised, no sequence of calls of the package changes the
  template, also when the debug flag has been changed meanwhile. With the concise
  template the result of \<open>mustLog\<close> does not depend on the file and line of the caller;
  after an initialisation without the debug variable every levelled call is
  independent of them, and the bytes written are the concise line, which has no file
  and line.
\<close>

theorem getQLogger_singleton:
  "(\<not> once st \<longrightarrow> getQLogger w st =
      (Inr (Some (length (heap st))),
       st\<lparr>once := True,
          logRecordTemplate := Some (if debugMode st then debug_template else release_template),
          heap := heap st @ [\<lparr>mu = False, output = ColorWriter w\<rparr>],
          instance := Some (length (heap st))\<rparr>)) \<and>
   (once st \<longrightarrow> getQLogger w st = (Inr (instance st), st)) \<and>
   getQLogger w' (snd (getQLogger w st)) = (fst (getQLogger w st), snd (getQLogger w st)) \<and>
   getQLogger_all (w # ws) st =
     (replicate (Suc (length ws)) (fst (getQLogger w st)), snd (getQLogger w st)) \<and>
   (once st \<longrightarrow> once (run cs st) \<and> logRecordTemplate (run cs st) = logRecordTemplate st \<and>
      logRecordTemplate (run cs (st\<lparr>debugMode := b\<rparr>)) = logRecordTemplate st) \<and>
   (logRecordTemplate st = Some release_template \<longrightarrow>
      mustLog (env\<lparr>env_Caller := k\<rparr>) l level calldepth f v st =
      mustLog env l level calldepth f v st) \<and>
   (env_Getenv ienv ''IIGSDEBUG'' \<noteq> ''1'' \<longrightarrow>
      logRecordTemplate (run cs (init_pkg ienv)) = Some release_template \<and>
      (\<forall>c. level_of c \<noteq> None \<longrightarrow>
         run_call (env\<lparr>env_Caller := k\<rparr>) c (run cs (init_pkg ienv)) =
         run_call env c (run cs (init_pkg ienv))) \<and>
      (\<forall>lv. getColorLevel (env_colors env) level = Inr lv \<and>
         (\<forall>tr s. env_write_ok env tr (output (heap (run cs (init_pkg ienv)) ! 0)) s) \<longrightarrow>
         written (new_events (run cs (init_pkg ienv))
            (snd (mustLog env (log (run cs (init_pkg ienv))) level calldepth f v
                    (run cs (init_pkg ienv))))) =
         record_line env False (new_record env lv f v (caller_location env calldepth))))"
proof -
  have 1: "\<not> once st \<longrightarrow> getQLogger w st =
      (Inr (Some (length (heap st))),
       st\<lparr>once := True,
          logRecordTemplate := Some (if debugMode st then debug_template else release_template),
          heap := heap st @ [\<lparr>mu = False, output = ColorWriter w\<rparr>],
          instance := Some (length (heap st))\<rparr>)"
    by (simp add: getQLogger_first)
  have 2: "once st \<longrightarrow> getQLogger w st = (Inr (instance st), st)"
    by (simp add: getQLogger_later)
  have 3: "getQLogger w' (snd (getQLogger w st)) = (fst (getQLogger w st), snd (getQLogger w st))"
    using getQLogger_later [OF getQLogger_once, of w' w st] getQLogger_result [of w st] by simp
  have 4: "getQLogger_all (w # ws) st =
     (replicate (Suc (length ws)) (fst (getQLogger w st)), snd (getQLogger w st))"
    by (rule getQLogger_all_any)
  have 5: "once st \<longrightarrow> once (run cs st) \<and> logRecordTemplate (run cs st) = logRecordTemplate st \<and>
      logRecordTemplate (run cs (st\<lparr>debugMode := b\<rparr>)) = logRecordTemplate st"
  proof
    assume o: "once st"
    then have o': "once (st\<lparr>debugMode := b\<rparr>)" by simp
    from run_template [OF o, of cs] run_template [OF o', of cs]
    show "once (run cs st) \<and> logRecordTemplate (run cs st) = logRecordTemplate st \<and>
      logRecordTemplate (run cs (st\<lparr>debugMode := b\<rparr>)) = logRecordTemplate st"
      by simp
  qed
  have 6: "logRecordTemplate st = Some release_template \<longrightarrow>
      mustLog (env\<lparr>env_Caller := k\<rparr>) l level calldepth f v st =
      mustLog env l level calldepth f v st"
    by (simp add: mustLog_ignores_caller)
  have 7: "env_Getenv ienv ''IIGSDEBUG'' \<noteq> ''1'' \<longrightarrow>
      logRecordTemplate (run cs (init_pkg ienv)) = Some release_template \<and>
      (\<forall>c. level_of c \<noteq> None \<longrightarrow>
         run_call (env\<lparr>env_Caller := k\<rparr>) c (run cs (init_pkg ienv)) =
         run_call env c (run cs (init_pkg ienv))) \<and>
      (\<forall>lv. getColorLevel (env_colors env) level = Inr lv \<and>
         (\<forall>tr s. env_write_ok env tr (output (heap (run cs (init_pkg ienv)) ! 0)) s) \<longrightarrow>
         written (new_events (run cs (init_pkg ienv))
            (snd (mustLog env (log (run cs (init_pkg ienv))) level calldepth f v
                    (run cs (init_pkg ienv))))) =
         record_line env False (new_record env lv f v (caller_location env calldepth)))"
  proof
    assume g: "env_Getenv ienv ''IIGSDEBUG'' \<noteq> ''1''"
    let ?st = "run cs (init_pkg ienv)"
    have t: "logRecordTemplate ?st = Some release_template" by (rule concise_reachable [OF g])
    have i: "pkg_inv ?st" by (rule reachable_inv)
    have d: "\<not> debugMode ?st" by (rule concise_not_debug [OF i t])
    have a: "\<forall>c. level_of c \<noteq> None \<longrightarrow>
         run_call (env\<lparr>env_Caller := k\<rparr>) c ?st = run_call env c ?st"
      using leveled_ignores_caller [OF t] by blast
    have b: "\<forall>lv. getColorLevel (env_colors env) level = Inr lv \<and>
         (\<forall>tr s. env_write_ok env tr (output (heap ?st ! 0)) s) \<longrightarrow>
         written (new_events ?st (snd (mustLog env (log ?st) level calldepth f v ?st))) =
         record_line env False (new_record env lv f v (caller_location env calldepth))"
    proof (intro allI impI, elim conjE)
      fix lv
      assume lv: "getColorLevel (env_colors env) level = Inr lv"
        and acc: "\<forall>tr s. env_write_ok env tr (output (heap ?st ! 0)) s"
      from acc have acc': "\<And>tr s. env_write_ok env tr (output (heap ?st ! 0)) s" by simp
      from mustLog_accepting [OF i lv acc', of calldepth f v] d
      show "written (new_events ?st (snd (mustLog env (log ?st) level calldepth f v ?st))) =
         record_line env False (new_record env lv f v (caller_location env calldepth))"
        by simp
    qed
    from t a b show "logRecordTemplate ?st = Some release_template \<and>
      (\<forall>c. level_of c \<noteq> None \<longrightarrow>
         run_call (env\<lparr>env_Caller := k\<rparr>) c ?st = run_call env c ?st) \<and>
      (\<forall>lv. getColorLevel (env_colors env) level = Inr lv \<and>
         (\<forall>tr s. env_write_ok env tr (output (heap ?st ! 0)) s) \<longrightarrow>
         written (new_events ?st (snd (mustLog env (log ?st) level calldepth f v ?st))) =
         record_line env False (new_record env lv f v (caller_location env calldepth)))"
      by blast
  qed
  from 1 2 3 4 5 6 7 show ?thesis by blast
qed

theorem getQLogger_singleton_witness:
  "\<not> once (vars0 env0) \<and>
   env_Getenv env0 ''IIGSDEBUG'' \<noteq> ''1'' \<and>
   fst (getQLogger (Sink 1) (vars0 env0)) = Inr (Some 0) \<and>
   heap (snd (getQLogger (Sink 1) (vars0 env0))) = [\<lparr>mu = False, output = ColorWriter (Sink 1)\<rparr>] \<and>
   logRecordTemplate (snd (getQLogger (Sink 1) (vars0 env0))) = Some release_template \<and>
   getQLogger_all [Sink 1, Sink 2, Stdout] (vars0 env0) =
     ([Inr (Some 0), Inr (Some 0), Inr (Some 0)], snd (getQLogger (Sink 1) (vars0 env0))) \<and>
   logRecordTemplate (run [(env_debug, CallInfo ''a'' [])] (init_pkg env0)) = Some release_template"
proof -
  have h1: "\<not> once (vars0 env0)" by (simp add: vars0_def)
  have h2: "env_Getenv env0 ''IIGSDEBUG'' \<noteq> ''1''" by (simp add: env0_def)
  have d: "\<not> debugMode (vars0 env0)" by (simp add: vars0_def env0_def)
  have hp: "heap (vars0 env0) = []" by (simp add: vars0_def)
  note t = getQLogger_singleton [where st = "vars0 env0" and w = "Sink 1" and ws = "[Sink 2, Stdout]"
      and ienv = env0 and cs = "[(env_debug, CallInfo ''a'' [])]"]
  from t h1 have a: "getQLogger (Sink 1) (vars0 env0) =
      (Inr (Some (length (heap (vars0 env0)))),
       (vars0 env0)\<lparr>once := True,
          logRecordTemplate := Some (if debugMode (vars0 env0) then debug_template else release_template),
          heap := heap (vars0 env0) @ [\<lparr>mu = False, output = ColorWriter (Sink 1)\<rparr>],
          instance := Some (length (heap (vars0 env0)))\<rparr>)"
    by blast
  from t have b: "getQLogger_all [Sink 1, Sink 2, Stdout] (vars0 env0) =
     (replicate (Suc (length [Sink 2, Stdout])) (fst (getQLogger (Sink 1) (vars0 env0))),
      snd (getQLogger (Sink 1) (vars0 env0)))"
    by blast
  from t h2 have c: "logRecordTemplate (run [(env_debug, CallInfo ''a'' [])] (init_pkg env0)) =
      Some release_template"
    by blast
  have f: "fst (getQLogger (Sink 1) (vars0 env0)) = Inr (Some 0)"
    unfolding a using hp by simp
  have g: "heap (snd (getQLogger (Sink 1) (vars0 env0))) = [\<lparr>mu = False, output = ColorWriter (Sink 1)\<rparr>]"
    unfolding a using hp by simp
  have tm: "logRecordTemplate (snd (getQLogger (Sink 1) (vars0 env0))) = Some release_template"
    unfolding a using d by simp
  have r: "replicate (Suc (length [Sink 2, Stdout])) (Inr (Some 0) :: error + nat option) =
      [Inr (Some 0), Inr (Some 0), Inr (Some 0)]"
    by (simp add: numeral_2_eq_2)
  from h1 h2 f g tm b c r show ?thesis by simp
qed

end
